theory Spec2Isabelle
  imports Complex_Main "HOL-Library.Word" "HOL-Library.Log_Nat"
begin

section \<open>The taxi-trip feature pipeline of the Azure dask-cloudprovider notebook\<close>

text \<open>
  The notebook defines three stages over a data frame of taxi trips: \<open>clean\<close> (column
  normalisation), a \<open>query\<close> over six range predicates (outlier filter) and
  \<open>add_features\<close> with its two row kernels \<open>haversine_distance_kernel\<close> and
  \<open>day_of_the_week_kernel\<close>. The definitions below follow the notebook cell by cell.
\<close>

subsection \<open>Binary64 arithmetic used by the day-of-week kernel\<close>

text \<open>
  The kernel evaluates \<^verbatim>\<open>math.floor(m*2.6)\<close>: the integer \<open>m\<close> is converted to a
  binary64 number, multiplied by the binary64 number nearest to \<open>2.6\<close>, and the rounded
  product is floored. Finite binary64 numbers are modelled by the rationals they denote, and
  \<open>float64_round\<close> is rounding to nearest, ties to even, with a 53-bit significand
  (overflow and subnormal numbers are outside its range of use: the products of the kernel
  are \<open>0\<close> or of magnitude at least \<open>2.6\<close>).
\<close>

definition pow2 :: "int \<Rightarrow> rat" where
  "pow2 k = (if 0 \<le> k then 2 ^ nat k else 1 / 2 ^ nat (- k))"

definition float64_exponent :: "rat \<Rightarrow> int" where
  "float64_exponent a =
     (if 1 \<le> a then bitlen \<lfloor>a\<rfloor> - 1
      else (let k = bitlen \<lfloor>1 / a\<rfloor> - 1 in if a = pow2 (- k) then - k else - k - 1))"

definition round_half_even :: "rat \<Rightarrow> int" where
  "round_half_even q =
     (let n = \<lfloor>q\<rfloor>; r = q - of_int n
      in if r < 1 / 2 then n else if 1 / 2 < r then n + 1 else if even n then n else n + 1)"

definition float64_round :: "rat \<Rightarrow> rat" where
  "float64_round x =
     (if x = 0 then 0
      else (let a = \<bar>x\<bar>; ulp = pow2 (float64_exponent a - 52)
            in sgn x * of_int (round_half_even (a / ulp)) * ulp))"

definition float64_of_int :: "int \<Rightarrow> rat" where
  "float64_of_int i = float64_round (of_int i)"

definition float64_mul :: "rat \<Rightarrow> rat \<Rightarrow> rat" where
  "float64_mul x y = float64_round (x * y)"

text \<open>The literal \<^verbatim>\<open>2.6\<close> of the source: the binary64 number nearest to \<open>26/10\<close>.\<close>

definition float64_2_6 :: rat where
  "float64_2_6 = float64_round (26 / 10)"

definition math_floor :: "rat \<Rightarrow> int" where
  "math_floor x = \<lfloor>x\<rfloor>"

subsection \<open>The day-of-week kernel\<close>

text \<open>
  One iteration of the loop of \<open>day_of_the_week_kernel\<close>, on the row \<open>(day, month, year)\<close>.
  Python's \<^verbatim>\<open>//\<close> and \<^verbatim>\<open>%\<close> on integers round towards minus infinity, as \<open>div\<close> and
  \<open>mod\<close> on \<open>int\<close> do; the comparison \<^verbatim>\<open>month[i] < 3\<close> counts as \<open>1\<close> or \<open>0\<close> in the
  subtraction.
\<close>

definition day_of_the_week_kernel :: "int \<Rightarrow> int \<Rightarrow> int \<Rightarrow> int" where
  "day_of_the_week_kernel day month year =
     (let shift = (if month < 3 then month else 0);
          Y = year - (if month < 3 then 1 else 0);
          y = Y - 2000;
          c = 20;
          d = day;
          m = month + shift + 1
      in (d + math_floor (float64_mul (float64_of_int m) float64_2_6) + y + (y div 4) + (c div 4)
            - 2 * c) mod 7)"

text \<open>
  The congruence as the specification words it, over exact rational arithmetic:
  \<open>shift\<close> is the month when \<open>month < 3\<close> and \<open>0\<close> otherwise, the effective year is the
  year less one when \<open>month < 3\<close>, \<open>y\<close> is the effective year less \<open>2000\<close>, \<open>c = 20\<close>,
  \<open>m = month + shift + 1\<close>.
\<close>

definition zeller_spec :: "int \<Rightarrow> int \<Rightarrow> int \<Rightarrow> int" where
  "zeller_spec day month year =
     (let shift = (if month < 3 then month else 0);
          y = (year - (if month < 3 then 1 else 0)) - 2000;
          c = 20;
          m = month + shift + 1
      in (day + \<lfloor>(26 / 10 :: rat) * of_int m\<rfloor> + y + \<lfloor>(of_int y :: rat) / 4\<rfloor>
            + \<lfloor>(of_int c :: rat) / 4\<rfloor> - 2 * c) mod 7)"

subsection \<open>The Gregorian calendar, as reference for the weekday\<close>

text \<open>
  The reference counts days: \<open>rata_die y m d\<close> is the number of the day \<open>y-m-d\<close> when
  the first of January of year 1 has number 1. That day was a Monday, so with Saturday
  numbered 0 the weekday of day number \<open>n\<close> is \<open>(n + 1) mod 7\<close>.
\<close>

definition leap_year :: "int \<Rightarrow> bool" where
  "leap_year y = (y mod 4 = 0 \<and> (y mod 100 \<noteq> 0 \<or> y mod 400 = 0))"

definition days_in_month :: "int \<Rightarrow> int \<Rightarrow> int" where
  "days_in_month y m =
     (if m = 2 then (if leap_year y then 29 else 28)
      else if m = 4 \<or> m = 6 \<or> m = 9 \<or> m = 11 then 30 else 31)"

definition valid_date :: "int \<Rightarrow> int \<Rightarrow> int \<Rightarrow> bool" where
  "valid_date y m d = (1 \<le> m \<and> m \<le> 12 \<and> 1 \<le> d \<and> d \<le> days_in_month y m)"

definition days_before_year :: "int \<Rightarrow> int" where
  "days_before_year y = 365 * (y - 1) + (y - 1) div 4 - (y - 1) div 100 + (y - 1) div 400"

definition days_before_month :: "int \<Rightarrow> int \<Rightarrow> int" where
  "days_before_month y m = sum_list (map (days_in_month y) [1..m - 1])"

definition rata_die :: "int \<Rightarrow> int \<Rightarrow> int \<Rightarrow> int" where
  "rata_die y m d = days_before_year y + days_before_month y m + d"

definition weekday_sat0 :: "int \<Rightarrow> int \<Rightarrow> int \<Rightarrow> int" where
  "weekday_sat0 y m d = (rata_die y m d + 1) mod 7"

definition is_saturday_or_sunday :: "int \<Rightarrow> int \<Rightarrow> int \<Rightarrow> bool" where
  "is_saturday_or_sunday y m d = (weekday_sat0 y m d = 0 \<or> weekday_sat0 y m d = 1)"

section \<open>Data frames\<close>

subsection \<open>Columns, cells and frames\<close>

text \<open>
  A column carries a dtype and its values; a missing value (null) is \<open>NA\<close>. Strings are
  \<open>S\<close>, integers \<open>I\<close>, floating-point numbers \<open>F\<close>, timestamps \<open>T\<close> (a count of the
  column's time unit since the epoch) and booleans \<open>B\<close>. Floating-point values are
  modelled by the real numbers they denote: the rounding of an explicit cast to float32 is
  the library function \<open>f32\<close> below, the rounding of the arithmetic in between is not
  modelled, and there is no NaN and no infinity. A frame is the list of its named columns,
  in column order.
\<close>

datatype np_dtype = Object | Bool | Int8 | Int16 | Int32 | Int64 | UInt8 | UInt16 | UInt32 | UInt64
  | Float32 | Float64 | Datetime64_ms | Datetime64_ns

text \<open>\<^verbatim>\<open>str(dtype)\<close>, which \<open>clean\<close> searches for the words \<^verbatim>\<open>int\<close> and \<^verbatim>\<open>float\<close>.\<close>

fun dtype_str :: "np_dtype \<Rightarrow> string" where
  "dtype_str Object = ''object''"
| "dtype_str Bool = ''bool''"
| "dtype_str Int8 = ''int8''"
| "dtype_str Int16 = ''int16''"
| "dtype_str Int32 = ''int32''"
| "dtype_str Int64 = ''int64''"
| "dtype_str UInt8 = ''uint8''"
| "dtype_str UInt16 = ''uint16''"
| "dtype_str UInt32 = ''uint32''"
| "dtype_str UInt64 = ''uint64''"
| "dtype_str Float32 = ''float32''"
| "dtype_str Float64 = ''float64''"
| "dtype_str Datetime64_ms = ''datetime64[ms]''"
| "dtype_str Datetime64_ns = ''datetime64[ns]''"

datatype cell = NA | S string | I int | F real | T int | B bool

record column =
  dtype :: np_dtype
  cells :: "cell list"

type_synonym dataframe = "(string \<times> column) list"

text \<open>Every exception of the source is a value; \<open>bnd\<close> passes the first one on.\<close>

datatype error = KeyError string | ValueError | AttributeError | TypeError

definition bnd :: "error + 'a \<Rightarrow> ('a \<Rightarrow> error + 'b) \<Rightarrow> error + 'b" where
  "bnd r f = (case r of Inl e \<Rightarrow> Inl e | Inr x \<Rightarrow> f x)"

text \<open>A \<^verbatim>\<open>for\<close> loop whose body updates the state and may raise.\<close>

fun for_each :: "('a \<Rightarrow> 's \<Rightarrow> error + 's) \<Rightarrow> 'a list \<Rightarrow> 's \<Rightarrow> error + 's" where
  "for_each body [] s = Inr s"
| "for_each body (x # xs) s = (case body x s of Inl e \<Rightarrow> Inl e | Inr s' \<Rightarrow> for_each body xs s')"

subsection \<open>What the data-frame library computes\<close>

text \<open>
  The conversions of text and the calendar fields of a timestamp are computed by the
  data-frame library, not by the notebook. They are parameters of the model: \<open>to_float32\<close>
  and \<open>to_datetime_ms\<close> convert a string (\<open>None\<close>: the conversion raises), \<open>f32\<close> rounds a
  number to float32, and \<open>dt_hour\<close>, \<open>dt_year\<close>, \<open>dt_month\<close>, \<open>dt_day\<close> read a field of a
  timestamp given in milliseconds since the epoch.
\<close>

record lib =
  to_float32 :: "string \<Rightarrow> real option"
  to_datetime_ms :: "string \<Rightarrow> int option"
  f32 :: "real \<Rightarrow> real"
  dt_hour :: "int \<Rightarrow> int"
  dt_year :: "int \<Rightarrow> int"
  dt_month :: "int \<Rightarrow> int"
  dt_day :: "int \<Rightarrow> int"

subsection \<open>Frame operations\<close>

definition columns :: "dataframe \<Rightarrow> string list" where
  "columns df = map fst df"

definition nrows :: "dataframe \<Rightarrow> nat" where
  "nrows df = (case df of [] \<Rightarrow> 0 | (n, c) # rest \<Rightarrow> length (cells c))"

text \<open>
  \<^verbatim>\<open>df[col]\<close> as a column; it raises \<^verbatim>\<open>KeyError\<close> on an unknown name. It is read where
  one column carries the name: in \<open>clean\<close> after \<open>column_dtype\<close> below has found
  exactly one, and in the later stages on the frames that \<open>clean\<close> returns, whose names are
  distinct.
\<close>

definition getitem :: "dataframe \<Rightarrow> string \<Rightarrow> error + column" where
  "getitem df col = (case map_of df col of None \<Rightarrow> Inl (KeyError col) | Some c \<Rightarrow> Inr c)"

text \<open>\<^verbatim>\<open>df[col] = c\<close> replaces the column of that name in place, or appends a new last column.\<close>

definition setitem :: "dataframe \<Rightarrow> string \<Rightarrow> column \<Rightarrow> dataframe" where
  "setitem df col c =
     (if col \<in> set (columns df) then map (\<lambda>(n, x). if n = col then (n, c) else (n, x)) df
      else df @ [(col, c)])"

text \<open>\<^verbatim>\<open>df.drop(col, axis=1)\<close>.\<close>

definition drop_column :: "string \<Rightarrow> dataframe \<Rightarrow> error + dataframe" where
  "drop_column col df =
     (if col \<in> set (columns df) then Inr (filter (\<lambda>(n, x). n \<noteq> col) df) else Inl (KeyError col))"

text \<open>\<^verbatim>\<open>df.rename(columns=mapper)\<close>: a name that is a key of the mapper is replaced.\<close>

definition rename_columns :: "(string \<times> string) list \<Rightarrow> dataframe \<Rightarrow> dataframe" where
  "rename_columns mapper df =
     map (\<lambda>(n, x). (case map_of mapper n of None \<Rightarrow> n | Some n' \<Rightarrow> n', x)) df"

text \<open>The statement \<^verbatim>\<open>df[col] = f(df[col])\<close>.\<close>

definition update_column :: "dataframe \<Rightarrow> string \<Rightarrow> (column \<Rightarrow> error + column) \<Rightarrow> error + dataframe" where
  "update_column df col f = bnd (getitem df col) (\<lambda>c. bnd (f c) (\<lambda>c'. Inr (setitem df col c')))"

text \<open>The statement \<^verbatim>\<open>df[target] = f(df[source])\<close>.\<close>

definition assign_from :: "dataframe \<Rightarrow> string \<Rightarrow> string \<Rightarrow> (column \<Rightarrow> error + column) \<Rightarrow> error + dataframe" where
  "assign_from df target source f =
     bnd (getitem df source) (\<lambda>c. bnd (f c) (\<lambda>c'. Inr (setitem df target c')))"

subsection \<open>Strings\<close>

text \<open>
  A character stands for the Unicode code point of its number, so the strings of the model
  are the Python strings over the code points 0 to 255. \<^verbatim>\<open>str.strip()\<close> removes the
  characters for which \<^verbatim>\<open>str.isspace()\<close> holds from both ends: in this range the code
  points 9 to 13, 28 to 31, 32, 133 and 160. \<^verbatim>\<open>str.lower()\<close> moves the capital letters up
  by 32: in this range the code points 65 to 90 and 192 to 222 without the multiplication
  sign 215.
\<close>

definition is_space :: "char \<Rightarrow> bool" where
  "is_space c = (let n = (of_char c :: nat)
                 in (9 \<le> n \<and> n \<le> 13) \<or> (28 \<le> n \<and> n \<le> 32) \<or> n = 133 \<or> n = 160)"

definition strip :: "string \<Rightarrow> string" where
  "strip s = rev (dropWhile is_space (rev (dropWhile is_space s)))"

definition lower_char :: "char \<Rightarrow> char" where
  "lower_char c = (let n = (of_char c :: nat)
                   in if (65 \<le> n \<and> n \<le> 90) \<or> (192 \<le> n \<and> n \<le> 222 \<and> n \<noteq> 215)
                      then char_of (n + 32) else c)"

definition lower :: "string \<Rightarrow> string" where
  "lower s = map lower_char s"

fun is_prefix :: "string \<Rightarrow> string \<Rightarrow> bool" where
  "is_prefix [] s = True"
| "is_prefix (p # ps) [] = False"
| "is_prefix (p # ps) (c # cs) = (p = c \<and> is_prefix ps cs)"

text \<open>\<^verbatim>\<open>sub in s\<close> on strings.\<close>

fun contains :: "string \<Rightarrow> string \<Rightarrow> bool" where
  "contains sub [] = (sub = [])"
| "contains sub (c # cs) = (is_prefix sub (c # cs) \<or> contains sub cs)"

subsection \<open>Casts and missing values\<close>

text \<open>A cast to int32 keeps the low 32 bits, read as a signed number.\<close>

definition wrap32 :: "int \<Rightarrow> int" where
  "wrap32 i = sint (word_of_int i :: 32 word)"

text \<open>
  \<^verbatim>\<open>astype\<close>, for the casts the notebook performs: text to \<^verbatim>\<open>datetime64[ms]\<close> and to
  \<^verbatim>\<open>float32\<close>, integers and timestamps to \<^verbatim>\<open>int32\<close>, floats to \<^verbatim>\<open>float32\<close>. A missing
  value stays missing. A value that cannot be converted makes the cast raise.
\<close>

definition cast_cell :: "lib \<Rightarrow> np_dtype \<Rightarrow> cell \<Rightarrow> cell option" where
  "cast_cell L t x =
     (case x of
        NA \<Rightarrow> Some NA
      | S s \<Rightarrow> (if t = Datetime64_ms then map_option T (to_datetime_ms L s)
                else if t = Float32 then map_option F (to_float32 L s) else None)
      | I i \<Rightarrow> (if t = Int32 then Some (I (wrap32 i)) else None)
      | F r \<Rightarrow> (if t = Float32 then Some (F (f32 L r)) else None)
      | T v \<Rightarrow> (if t = Int32 then Some (I (wrap32 v)) else None)
      | B b \<Rightarrow> None)"

definition astype :: "lib \<Rightarrow> np_dtype \<Rightarrow> column \<Rightarrow> error + column" where
  "astype L t c =
     (case those (map (cast_cell L t) (cells c)) of
        None \<Rightarrow> Inl ValueError
      | Some xs \<Rightarrow> Inr \<lparr>dtype = t, cells = xs\<rparr>)"

text \<open>\<^verbatim>\<open>fillna(v)\<close> replaces the missing values and nothing else.\<close>

definition fillna :: "cell \<Rightarrow> column \<Rightarrow> column" where
  "fillna v c = c\<lparr>cells := map (\<lambda>x. case x of NA \<Rightarrow> v | _ \<Rightarrow> x) (cells c)\<rparr>"

text \<open>
  \<^verbatim>\<open>column.str.fillna(v)\<close>: the string accessor \<^verbatim>\<open>.str\<close> of a column has no method
  \<^verbatim>\<open>fillna\<close>, so the attribute lookup raises \<^verbatim>\<open>AttributeError\<close> whatever the column holds,
  and nothing is filled.
\<close>

definition str_fillna :: "cell \<Rightarrow> column \<Rightarrow> error + column" where
  "str_fillna v c = Inl AttributeError"

text \<open>
  \<^verbatim>\<open>df[col].dtype\<close>. When several columns carry the name, \<^verbatim>\<open>df[col]\<close> is the frame of
  those columns, which has no attribute \<^verbatim>\<open>dtype\<close>.
\<close>

definition column_dtype :: "dataframe \<Rightarrow> string \<Rightarrow> error + np_dtype" where
  "column_dtype df col =
     (case filter (\<lambda>(n, x). n = col) df of
        [] \<Rightarrow> Inl (KeyError col)
      | [(n, c)] \<Rightarrow> Inr (dtype c)
      | _ \<Rightarrow> Inl AttributeError)"

text \<open>The Python scalar \<open>k\<close> as a value of a column of dtype \<open>d\<close>.\<close>

definition scalar_as :: "np_dtype \<Rightarrow> int \<Rightarrow> cell" where
  "scalar_as d k =
     (if contains ''int'' (dtype_str d) then I k
      else if contains ''float'' (dtype_str d) then F (of_int k)
      else if d = Bool then B (k \<noteq> 0)
      else if contains ''datetime'' (dtype_str d) then T k
      else I k)"

section \<open>The column normaliser \<open>clean\<close>\<close>

text \<open>The two dictionaries of the notebook, in the order they are written.\<close>

definition remap :: "(string \<times> string) list" where
  "remap = [(''tpep_pickup_datetime'', ''pickup_datetime''),
            (''tpep_dropoff_datetime'', ''dropoff_datetime''),
            (''ratecodeid'', ''rate_code'')]"

definition must_haves :: "(string \<times> np_dtype) list" where
  "must_haves = [(''pickup_datetime'', Datetime64_ms),
                 (''dropoff_datetime'', Datetime64_ms),
                 (''passenger_count'', Int32),
                 (''trip_distance'', Float32),
                 (''pickup_longitude'', Float32),
                 (''pickup_latitude'', Float32),
                 (''rate_code'', Int32),
                 (''dropoff_longitude'', Float32),
                 (''dropoff_latitude'', Float32),
                 (''fare_amount'', Float32)]"

text \<open>
  The body of the loop of \<open>clean\<close>, statement by statement, on the column name \<open>col\<close> and
  the current frame. The test \<^verbatim>\<open>col not in must_haves\<close> looks at the keys only: the
  dtypes written in \<open>must_haves\<close> are not read anywhere. In the branch for a column read as
  text the first statement raises, so the cast to float32 after it is never reached.
\<close>

definition clean_body :: "lib \<Rightarrow> (string \<times> np_dtype) list \<Rightarrow> string \<Rightarrow> dataframe \<Rightarrow> error + dataframe" where
  "clean_body L mh col df_part =
     (if map_of mh col = None then drop_column col df_part
      else bnd (column_dtype df_part col) (\<lambda>d.
        if d = Object \<and> col \<in> set [''pickup_datetime'', ''dropoff_datetime'']
        then update_column df_part col (astype L Datetime64_ms)
        else bnd (column_dtype df_part col) (\<lambda>d.
        if d = Object
        then bnd (update_column df_part col (str_fillna (S ''-1'')))
               (\<lambda>df_part. update_column df_part col (astype L Float32))
        else
          bnd (bnd (column_dtype df_part col) (\<lambda>d.
                 if contains ''int'' (dtype_str d)
                 then update_column df_part col (astype L Int32) else Inr df_part))
          (\<lambda>df_part.
          bnd (bnd (column_dtype df_part col) (\<lambda>d.
                 if contains ''float'' (dtype_str d)
                 then update_column df_part col (astype L Float32) else Inr df_part))
          (\<lambda>df_part.
          update_column df_part col (\<lambda>c. Inr (fillna (scalar_as (dtype c) (- 1)) c)))))))"

definition clean :: "lib \<Rightarrow> dataframe \<Rightarrow> (string \<times> string) list \<Rightarrow> (string \<times> np_dtype) list \<Rightarrow> error + dataframe" where
  "clean L df_part rm mh =
     (let tmp = map (\<lambda>col. (col, lower (strip col))) (columns df_part);
          df_part = rename_columns tmp df_part;
          df_part = rename_columns rm df_part
      in for_each (clean_body L mh) (columns df_part) df_part)"

subsection \<open>Vocabulary for the statements about \<open>clean\<close>\<close>

text \<open>The name a column has after the two renamings.\<close>

definition canonical_name :: "(string \<times> string) list \<Rightarrow> string \<Rightarrow> string" where
  "canonical_name rm n = (case map_of rm (lower (strip n)) of None \<Rightarrow> lower (strip n) | Some n' \<Rightarrow> n')"

definition renamed :: "(string \<times> string) list \<Rightarrow> dataframe \<Rightarrow> dataframe" where
  "renamed rm df = map (\<lambda>(n, c). (canonical_name rm n, c)) df"

text \<open>The net effect of one pass of the loop body on a column that is kept.\<close>

definition normalize_column :: "lib \<Rightarrow> string \<Rightarrow> column \<Rightarrow> error + column" where
  "normalize_column L col c =
     (if dtype c = Object \<and> col \<in> set [''pickup_datetime'', ''dropoff_datetime'']
      then astype L Datetime64_ms c
      else if dtype c = Object then bnd (str_fillna (S ''-1'') c) (astype L Float32)
      else bnd (if contains ''int'' (dtype_str (dtype c)) then astype L Int32 c else Inr c) (\<lambda>c1.
           bnd (if contains ''float'' (dtype_str (dtype c1)) then astype L Float32 c1 else Inr c1) (\<lambda>c2.
           Inr (fillna (scalar_as (dtype c2) (- 1)) c2))))"

fun clean_columns :: "lib \<Rightarrow> (string \<times> np_dtype) list \<Rightarrow> dataframe \<Rightarrow> error + dataframe" where
  "clean_columns L mh [] = Inr []"
| "clean_columns L mh ((n, c) # rest) =
     (if map_of mh n = None then clean_columns L mh rest
      else case normalize_column L n c of
             Inl e \<Rightarrow> Inl e
           | Inr c' \<Rightarrow> (case clean_columns L mh rest of Inl e \<Rightarrow> Inl e | Inr rest' \<Rightarrow> Inr ((n, c') # rest')))"

text \<open>
  The dtype a kept column leaves \<open>clean\<close> with, by the dtype it came with: text, which
  gets through under the two timestamp names only, becomes a millisecond timestamp, every
  integer dtype becomes int32, every float dtype float32, and any other dtype stays.
\<close>

definition normalized_dtype :: "np_dtype \<Rightarrow> np_dtype" where
  "normalized_dtype d =
     (case d of
        Object \<Rightarrow> Datetime64_ms
      | Bool \<Rightarrow> Bool
      | Int8 \<Rightarrow> Int32 | Int16 \<Rightarrow> Int32 | Int32 \<Rightarrow> Int32 | Int64 \<Rightarrow> Int32
      | UInt8 \<Rightarrow> Int32 | UInt16 \<Rightarrow> Int32 | UInt32 \<Rightarrow> Int32 | UInt64 \<Rightarrow> Int32
      | Float32 \<Rightarrow> Float32 | Float64 \<Rightarrow> Float32
      | Datetime64_ms \<Rightarrow> Datetime64_ms
      | Datetime64_ns \<Rightarrow> Datetime64_ns)"

text \<open>A value is of a dtype, or missing.\<close>

definition cell_ok :: "np_dtype \<Rightarrow> cell \<Rightarrow> bool" where
  "cell_ok d x =
     (case x of
        NA \<Rightarrow> True
      | S s \<Rightarrow> d = Object
      | I i \<Rightarrow> contains ''int'' (dtype_str d)
      | F r \<Rightarrow> contains ''float'' (dtype_str d)
      | T v \<Rightarrow> contains ''datetime'' (dtype_str d)
      | B b \<Rightarrow> d = Bool)"

text \<open>
  A column that the loop body of \<open>clean\<close> gets through: its values are of its dtype, and
  if it was read as text it is one of the two timestamp columns and each of its strings is
  a timestamp that the library converts.
\<close>

definition convertible :: "lib \<Rightarrow> string \<Rightarrow> column \<Rightarrow> bool" where
  "convertible L n c =
     (list_all (cell_ok (dtype c)) (cells c)
      \<and> (dtype c = Object \<longrightarrow>
            n \<in> set [''pickup_datetime'', ''dropoff_datetime'']
            \<and> list_all (\<lambda>x. case x of S s \<Rightarrow> to_datetime_ms L s \<noteq> None | _ \<Rightarrow> True) (cells c)))"

text \<open>
  A frame with the canonical schema: the column names are distinct, the names with their
  dtypes are exactly the entries of \<open>must_haves\<close>, all columns have the same length, and
  every value is missing or of its column's dtype.
\<close>

definition normalized :: "dataframe \<Rightarrow> bool" where
  "normalized df =
     (distinct (columns df)
      \<and> set (map (\<lambda>(n, c). (n, dtype c)) df) = set must_haves
      \<and> list_all (\<lambda>(n, c). length (cells c) = nrows df \<and> list_all (cell_ok (dtype c)) (cells c)) df)"

section \<open>The outlier filter\<close>

text \<open>
  The query strings of the notebook, parsed: a comparison of a named column with an integer
  literal, and \<^verbatim>\<open>and\<close>. The fragments are joined with \<^verbatim>\<open>' and '\<close>, which reads as a
  chain of conjunctions from the left.
\<close>

datatype expr = Gt string int | Lt string int | And expr expr

definition query_frags :: "expr list" where
  "query_frags =
     [And (Gt ''fare_amount'' 0) (Lt ''fare_amount'' 500),
      And (Gt ''passenger_count'' 0) (Lt ''passenger_count'' 6),
      And (Gt ''pickup_longitude'' (- 75)) (Lt ''pickup_longitude'' (- 73)),
      And (Gt ''dropoff_longitude'' (- 75)) (Lt ''dropoff_longitude'' (- 73)),
      And (Gt ''pickup_latitude'' 40) (Lt ''pickup_latitude'' 42),
      And (Gt ''dropoff_latitude'' 40) (Lt ''dropoff_latitude'' 42)]"

fun join_and :: "expr list \<Rightarrow> expr option" where
  "join_and [] = None"
| "join_and (e # es) = Some (foldl And e es)"

text \<open>
  The number in a cell, for a comparison. A comparison with a missing value is false; a
  column of text or of timestamps cannot be compared with a number.
\<close>

definition cell_num :: "cell \<Rightarrow> real option" where
  "cell_num x = (case x of I i \<Rightarrow> Some (of_int i) | F r \<Rightarrow> Some r
                 | B b \<Rightarrow> Some (if b then 1 else 0) | _ \<Rightarrow> None)"

definition numeric_dtype :: "np_dtype \<Rightarrow> bool" where
  "numeric_dtype d = (d \<notin> set [Object, Datetime64_ms, Datetime64_ns])"

definition compare_column :: "(real \<Rightarrow> bool) \<Rightarrow> column \<Rightarrow> error + bool list" where
  "compare_column p c =
     (if numeric_dtype (dtype c)
      then Inr (map (\<lambda>x. case cell_num x of None \<Rightarrow> False | Some v \<Rightarrow> p v) (cells c))
      else Inl TypeError)"

text \<open>The query is evaluated column-wise to one truth value per row.\<close>

fun eval_expr :: "dataframe \<Rightarrow> expr \<Rightarrow> error + bool list" where
  "eval_expr df (Gt col k) =
     (case getitem df col of Inl e \<Rightarrow> Inl e | Inr c \<Rightarrow> compare_column (\<lambda>v. of_int k < v) c)"
| "eval_expr df (Lt col k) =
     (case getitem df col of Inl e \<Rightarrow> Inl e | Inr c \<Rightarrow> compare_column (\<lambda>v. v < of_int k) c)"
| "eval_expr df (And a b) =
     (case eval_expr df a of
        Inl e \<Rightarrow> Inl e
      | Inr xs \<Rightarrow> (case eval_expr df b of Inl e \<Rightarrow> Inl e | Inr ys \<Rightarrow> Inr (map2 (\<and>) xs ys)))"

text \<open>The rows whose truth value is \<open>True\<close> are kept, in every column.\<close>

definition keep :: "bool list \<Rightarrow> 'a list \<Rightarrow> 'a list" where
  "keep sel xs = map snd (filter fst (zip sel xs))"

definition take_rows :: "bool list \<Rightarrow> dataframe \<Rightarrow> dataframe" where
  "take_rows sel df = map (\<lambda>(n, c). (n, c\<lparr>cells := keep sel (cells c)\<rparr>)) df"

definition query :: "dataframe \<Rightarrow> expr \<Rightarrow> error + dataframe" where
  "query df e = bnd (eval_expr df e) (\<lambda>sel. Inr (take_rows sel df))"

text \<open>The statement \<^verbatim>\<open>df_2014 = df_2014.query(' and '.join(query_frags))\<close>.\<close>

definition outlier_filter :: "dataframe \<Rightarrow> error + dataframe" where
  "outlier_filter df = (case join_and query_frags of None \<Rightarrow> Inl ValueError | Some e \<Rightarrow> query df e)"

subsection \<open>The bounds as the specification states them\<close>

text \<open>
  fare_amount in \<open>(0, 500)\<close>, passenger_count in \<open>(0, 6)\<close>, the two longitudes in
  \<open>(-75, -73)\<close>, the two latitudes in \<open>(40, 42)\<close>, all bounds exclusive.
\<close>

definition bounds :: "(string \<times> real \<times> real) list" where
  "bounds = [(''fare_amount'', 0, 500), (''passenger_count'', 0, 6),
             (''pickup_longitude'', - 75, - 73), (''dropoff_longitude'', - 75, - 73),
             (''pickup_latitude'', 40, 42), (''dropoff_latitude'', 40, 42)]"

definition row_value :: "dataframe \<Rightarrow> string \<Rightarrow> nat \<Rightarrow> real option" where
  "row_value df col i = (case map_of df col of None \<Rightarrow> None | Some c \<Rightarrow> cell_num (cells c ! i))"

definition within_bounds :: "dataframe \<Rightarrow> nat \<Rightarrow> bool" where
  "within_bounds df i =
     list_all (\<lambda>(col, lo, hi). case row_value df col i of None \<Rightarrow> False | Some v \<Rightarrow> lo < v \<and> v < hi)
       bounds"

section \<open>The feature deriver\<close>

subsection \<open>The haversine kernel\<close>

text \<open>
  One iteration of the loop of \<open>haversine_distance_kernel\<close>, over the reals.
\<close>

definition haversine_distance_kernel :: "real \<Rightarrow> real \<Rightarrow> real \<Rightarrow> real \<Rightarrow> real" where
  "haversine_distance_kernel pickup_latitude pickup_longitude dropoff_latitude dropoff_longitude =
     (let x_1 = pi / 180 * pickup_latitude;
          y_1 = pi / 180 * pickup_longitude;
          x_2 = pi / 180 * dropoff_latitude;
          y_2 = pi / 180 * dropoff_longitude;
          dlon = y_2 - y_1;
          dlat = x_2 - x_1;
          a = (sin (dlat / 2)) ^ 2 + cos x_1 * cos x_2 * (sin (dlon / 2)) ^ 2;
          c = 2 * arcsin (sqrt a);
          r = 6371
      in c * r)"

text \<open>
  The haversine formula as the specification words it: both points converted from degrees
  to radians, \<open>a = sin\<^sup>2(\<Delta>lat/2) + cos(lat1) cos(lat2) sin\<^sup>2(\<Delta>lon/2)\<close>, and the distance
  \<open>2 R asin(\<surd>a)\<close> with \<open>R = 6371\<close>.
\<close>

definition radians :: "real \<Rightarrow> real" where
  "radians deg = deg * pi / 180"

definition haversine_a :: "real \<Rightarrow> real \<Rightarrow> real \<Rightarrow> real \<Rightarrow> real" where
  "haversine_a lat1 lon1 lat2 lon2 =
     (sin ((lat2 - lat1) / 2))\<^sup>2 + cos lat1 * cos lat2 * (sin ((lon2 - lon1) / 2))\<^sup>2"

definition haversine_spec :: "real \<Rightarrow> real \<Rightarrow> real \<Rightarrow> real \<Rightarrow> real" where
  "haversine_spec lat1 lon1 lat2 lon2 =
     2 * 6371 * arcsin (sqrt (haversine_a (radians lat1) (radians lon1) (radians lat2) (radians lon2)))"

subsection \<open>Column operations of \<open>add_features\<close>\<close>

text \<open>
  A \<^verbatim>\<open>.dt\<close> field of a timestamp column; on any other column the accessor raises. The
  library functions take milliseconds.
\<close>

definition to_ms :: "np_dtype \<Rightarrow> int \<Rightarrow> int" where
  "to_ms d v = (if d = Datetime64_ns then v div 1000000 else v)"

definition dt_field :: "(int \<Rightarrow> int) \<Rightarrow> column \<Rightarrow> error + column" where
  "dt_field f c =
     (if contains ''datetime'' (dtype_str (dtype c))
      then (case those (map (\<lambda>x. case x of NA \<Rightarrow> Some NA | T v \<Rightarrow> Some (I (f (to_ms (dtype c) v)))
                                  | _ \<Rightarrow> None) (cells c)) of
              None \<Rightarrow> Inl TypeError
            | Some xs \<Rightarrow> Inr \<lparr>dtype = Int16, cells = xs\<rparr>)
      else Inl AttributeError)"

text \<open>The difference of two int32 columns, computed in 32 bits.\<close>

definition sub_int32 :: "cell \<Rightarrow> cell \<Rightarrow> cell option" where
  "sub_int32 x y =
     (case (x, y) of
        (I a, I b) \<Rightarrow> Some (I (sint ((word_of_int a :: 32 word) - word_of_int b)))
      | (NA, I b) \<Rightarrow> Some NA | (I a, NA) \<Rightarrow> Some NA | (NA, NA) \<Rightarrow> Some NA
      | _ \<Rightarrow> None)"

definition sub_columns :: "column \<Rightarrow> column \<Rightarrow> error + column" where
  "sub_columns a b =
     (if dtype a = Int32 \<and> dtype b = Int32 \<and> length (cells a) = length (cells b)
      then (case those (map2 sub_int32 (cells a) (cells b)) of
              None \<Rightarrow> Inl TypeError
            | Some xs \<Rightarrow> Inr \<lparr>dtype = Int32, cells = xs\<rparr>)
      else Inl TypeError)"

text \<open>Arithmetic of a numeric column with a float scalar; the result is a float column.\<close>

definition map_numeric :: "(real \<Rightarrow> real) \<Rightarrow> column \<Rightarrow> error + column" where
  "map_numeric f c =
     (if numeric_dtype (dtype c)
      then (case those (map (\<lambda>x. case x of NA \<Rightarrow> Some NA
                                  | _ \<Rightarrow> map_option (\<lambda>v. F (f v)) (cell_num x)) (cells c)) of
              None \<Rightarrow> Inl TypeError
            | Some xs \<Rightarrow> Inr \<lparr>dtype = (if dtype c = Float32 then Float32 else Float64), cells = xs\<rparr>)
      else Inl TypeError)"

definition floordiv_scalar :: "real \<Rightarrow> column \<Rightarrow> error + column" where
  "floordiv_scalar k c = map_numeric (\<lambda>v. of_int \<lfloor>v / k\<rfloor>) c"

definition mul_scalar :: "real \<Rightarrow> column \<Rightarrow> error + column" where
  "mul_scalar k c = map_numeric (\<lambda>v. v * k) c"

text \<open>The comparison \<^verbatim>\<open>column < k\<close>: a boolean column, missing where the value is missing.\<close>

definition cell_less_than :: "real \<Rightarrow> cell \<Rightarrow> cell option" where
  "cell_less_than k x = (case x of NA \<Rightarrow> Some NA | _ \<Rightarrow> map_option (\<lambda>v. B (v < k)) (cell_num x))"

definition lt_scalar :: "real \<Rightarrow> column \<Rightarrow> error + column" where
  "lt_scalar k c =
     (if numeric_dtype (dtype c)
      then (case those (map (cell_less_than k) (cells c)) of
              None \<Rightarrow> Inl TypeError
            | Some xs \<Rightarrow> Inr \<lparr>dtype = Bool, cells = xs\<rparr>)
      else Inl TypeError)"

text \<open>
  \<^verbatim>\<open>apply_rows\<close> hands the input columns to the kernel, which walks through them in
  step (the \<^verbatim>\<open>zip\<close> of the kernels) and writes one output value per row.
\<close>

fun rows_of :: "'a list list \<Rightarrow> 'a list list" where
  "rows_of [] = []"
| "rows_of [c] = map (\<lambda>x. [x]) c"
| "rows_of (c # cs) = map2 (#) c (rows_of cs)"

fun get_columns :: "dataframe \<Rightarrow> string list \<Rightarrow> error + column list" where
  "get_columns df [] = Inr []"
| "get_columns df (n # ns) =
     (case getitem df n of
        Inl e \<Rightarrow> Inl e
      | Inr c \<Rightarrow> (case get_columns df ns of Inl e \<Rightarrow> Inl e | Inr cs \<Rightarrow> Inr (c # cs)))"

definition apply_rows ::
  "(cell list \<Rightarrow> cell option) \<Rightarrow> string list \<Rightarrow> string \<Rightarrow> np_dtype \<Rightarrow> dataframe \<Rightarrow> error + dataframe" where
  "apply_rows kern incols outcol t df =
     bnd (get_columns df incols) (\<lambda>cs.
       case those (map kern (rows_of (map cells cs))) of
         None \<Rightarrow> Inl TypeError
       | Some out \<Rightarrow> Inr (setitem df outcol \<lparr>dtype = t, cells = out\<rparr>))"

text \<open>The two kernels on a row of cells: a row with a missing input has a missing output.\<close>

definition haversine_row :: "lib \<Rightarrow> cell list \<Rightarrow> cell option" where
  "haversine_row L row =
     (if NA \<in> set row then Some NA
      else case map cell_num row of
             [Some x_1, Some y_1, Some x_2, Some y_2] \<Rightarrow>
               Some (F (f32 L (haversine_distance_kernel x_1 y_1 x_2 y_2)))
           | _ \<Rightarrow> None)"

definition day_of_week_row :: "cell list \<Rightarrow> cell option" where
  "day_of_week_row row =
     (if NA \<in> set row then Some NA
      else case row of
             [I d_1, I m_1, I y_1] \<Rightarrow> Some (F (of_int (day_of_the_week_kernel d_1 m_1 y_1)))
           | _ \<Rightarrow> None)"

subsection \<open>\<open>add_features\<close>\<close>

text \<open>The function, one line of the model for each statement of the source.\<close>

definition add_features :: "lib \<Rightarrow> dataframe \<Rightarrow> error + dataframe" where
  "add_features L df =
     bnd (assign_from df ''hour'' ''pickup_datetime'' (dt_field (dt_hour L))) (\<lambda>df.
     bnd (assign_from df ''year'' ''pickup_datetime'' (dt_field (dt_year L))) (\<lambda>df.
     bnd (assign_from df ''month'' ''pickup_datetime'' (dt_field (dt_month L))) (\<lambda>df.
     bnd (assign_from df ''day'' ''pickup_datetime'' (dt_field (dt_day L))) (\<lambda>df.
     bnd (bnd (getitem df ''dropoff_datetime'') (\<lambda>dropoff.
          bnd (astype L Int32 dropoff) (\<lambda>dropoff32.
          bnd (getitem df ''pickup_datetime'') (\<lambda>pickup.
          bnd (astype L Int32 pickup) (\<lambda>pickup32.
          bnd (sub_columns dropoff32 pickup32) (\<lambda>d.
          Inr (setitem df ''diff'' d))))))) (\<lambda>df.
     bnd (assign_from df ''pickup_latitude_r'' ''pickup_latitude''
            (\<lambda>c. bnd (floordiv_scalar (1 / 100) c) (mul_scalar (1 / 100)))) (\<lambda>df.
     bnd (assign_from df ''pickup_longitude_r'' ''pickup_longitude''
            (\<lambda>c. bnd (floordiv_scalar (1 / 100) c) (mul_scalar (1 / 100)))) (\<lambda>df.
     bnd (assign_from df ''dropoff_latitude_r'' ''dropoff_latitude''
            (\<lambda>c. bnd (floordiv_scalar (1 / 100) c) (mul_scalar (1 / 100)))) (\<lambda>df.
     bnd (assign_from df ''dropoff_longitude_r'' ''dropoff_longitude''
            (\<lambda>c. bnd (floordiv_scalar (1 / 100) c) (mul_scalar (1 / 100)))) (\<lambda>df.
     bnd (drop_column ''pickup_datetime'' df) (\<lambda>df.
     bnd (drop_column ''dropoff_datetime'' df) (\<lambda>df.
     bnd (apply_rows (haversine_row L)
            [''pickup_latitude'', ''pickup_longitude'', ''dropoff_latitude'', ''dropoff_longitude'']
            ''h_distance'' Float32 df) (\<lambda>df.
     bnd (apply_rows day_of_week_row [''day'', ''month'', ''year''] ''day_of_week'' Float32 df) (\<lambda>df.
     bnd (assign_from df ''is_weekend'' ''day_of_week'' (lt_scalar 2)) (\<lambda>df.
     Inr df))))))))))))))"


text \<open>
  The closed form of the result: the frame without its two timestamp columns, and the
  derived columns computed from the pick-up column \<open>P\<close>, the drop-off column \<open>D\<close> and the
  four coordinate columns.
\<close>

definition without_timestamps :: "dataframe \<Rightarrow> dataframe" where
  "without_timestamps df =
     filter (\<lambda>(n, x). n \<noteq> ''dropoff_datetime'') (filter (\<lambda>(n, x). n \<noteq> ''pickup_datetime'') df)"

definition day_of_week_cells :: "lib \<Rightarrow> cell list \<Rightarrow> cell list" where
  "day_of_week_cells L ts =
     map (\<lambda>x. case x of
                 T v \<Rightarrow> F (of_int (day_of_the_week_kernel (dt_day L v) (dt_month L v) (dt_year L v)))
               | _ \<Rightarrow> NA) ts"

definition bucket_cells :: "cell list \<Rightarrow> cell list" where
  "bucket_cells xs = map (\<lambda>x. case x of F r \<Rightarrow> F (of_int \<lfloor>r / (1 / 100)\<rfloor> * (1 / 100)) | _ \<Rightarrow> NA) xs"

definition derived :: "lib \<Rightarrow> column \<Rightarrow> column \<Rightarrow> column \<Rightarrow> column \<Rightarrow> column \<Rightarrow> column \<Rightarrow> dataframe" where
  "derived L P D A1 A2 A3 A4 =
     [(''hour'', \<lparr>dtype = Int16, cells = map (\<lambda>x. case x of T v \<Rightarrow> I (dt_hour L v) | _ \<Rightarrow> NA) (cells P)\<rparr>),
      (''year'', \<lparr>dtype = Int16, cells = map (\<lambda>x. case x of T v \<Rightarrow> I (dt_year L v) | _ \<Rightarrow> NA) (cells P)\<rparr>),
      (''month'', \<lparr>dtype = Int16, cells = map (\<lambda>x. case x of T v \<Rightarrow> I (dt_month L v) | _ \<Rightarrow> NA) (cells P)\<rparr>),
      (''day'', \<lparr>dtype = Int16, cells = map (\<lambda>x. case x of T v \<Rightarrow> I (dt_day L v) | _ \<Rightarrow> NA) (cells P)\<rparr>),
      (''diff'', \<lparr>dtype = Int32,
         cells = map2 (\<lambda>x y. case (x, y) of (T d, T p) \<Rightarrow> I (wrap32 (d - p)) | _ \<Rightarrow> NA)
                   (cells D) (cells P)\<rparr>),
      (''pickup_latitude_r'', \<lparr>dtype = Float32, cells = bucket_cells (cells A1)\<rparr>),
      (''pickup_longitude_r'', \<lparr>dtype = Float32, cells = bucket_cells (cells A2)\<rparr>),
      (''dropoff_latitude_r'', \<lparr>dtype = Float32, cells = bucket_cells (cells A3)\<rparr>),
      (''dropoff_longitude_r'', \<lparr>dtype = Float32, cells = bucket_cells (cells A4)\<rparr>),
      (''h_distance'', \<lparr>dtype = Float32,
         cells = map (\<lambda>row. the (haversine_row L row)) (rows_of [cells A1, cells A2, cells A3, cells A4])\<rparr>),
      (''day_of_week'', \<lparr>dtype = Float32, cells = day_of_week_cells L (cells P)\<rparr>),
      (''is_weekend'', \<lparr>dtype = Bool,
         cells = map (\<lambda>x. case x of F r \<Rightarrow> B (r < 2) | _ \<Rightarrow> NA) (day_of_week_cells L (cells P))\<rparr>)]"


text \<open>The values of a column of a result, when there is a result and it has the column.\<close>

definition column_of :: "error + dataframe \<Rightarrow> string \<Rightarrow> cell list option" where
  "column_of r n = (case r of Inl e \<Rightarrow> None | Inr df \<Rightarrow> map_option cells (map_of df n))"

section \<open>A reference library and sample frames\<close>

text \<open>
  One instance of the library parameters, on which the examples are evaluated: decimal
  numerals and timestamps of the form \<^verbatim>\<open>YYYY-MM-DD HH:MM:SS\<close> are converted, any other
  string is rejected; the calendar fields are those of the proleptic Gregorian calendar;
  the cast to float32 is taken to be exact.
\<close>

definition digit_val :: "char \<Rightarrow> nat option" where
  "digit_val c = (let n = (of_char c :: nat) in if 48 \<le> n \<and> n \<le> 57 then Some (n - 48) else None)"

definition parse_nat :: "string \<Rightarrow> nat option" where
  "parse_nat s = (if s = [] then None
                  else map_option (foldl (\<lambda>a d. 10 * a + d) 0) (those (map digit_val s)))"

definition parse_decimal :: "string \<Rightarrow> rat option" where
  "parse_decimal s =
     (let (neg, body) = (case s of c # cs \<Rightarrow> if c = CHR ''-'' then (True, cs) else (False, s)
                                  | [] \<Rightarrow> (False, s));
          ip = takeWhile (\<lambda>c. c \<noteq> CHR ''.'') body;
          rest = dropWhile (\<lambda>c. c \<noteq> CHR ''.'') body;
          sgn = (if neg then - 1 else 1)
      in case parse_nat ip of
           None \<Rightarrow> None
         | Some n \<Rightarrow>
             (case rest of
                [] \<Rightarrow> Some (sgn * of_nat n)
              | _ # fp \<Rightarrow>
                  (case parse_nat fp of
                     None \<Rightarrow> None
                   | Some k \<Rightarrow> Some (sgn * (of_nat n + of_nat k / 10 ^ length fp)))))"

definition civil_from_days :: "int \<Rightarrow> int \<times> int \<times> int" where
  "civil_from_days z0 =
     (let z = z0 + 719468;
          era = z div 146097;
          doe = z - era * 146097;
          yoe = (doe - doe div 1460 + doe div 36524 - doe div 146096) div 365;
          doy = doe - (365 * yoe + yoe div 4 - yoe div 100);
          mp = (5 * doy + 2) div 153;
          d = doy - (153 * mp + 2) div 5 + 1;
          m = (if mp < 10 then mp + 3 else mp - 9)
      in (yoe + era * 400 + (if m \<le> 2 then 1 else 0), m, d))"

definition ms_per_day :: int where
  "ms_per_day = 86400000"

definition parse_timestamp :: "string \<Rightarrow> int option" where
  "parse_timestamp s =
     (if length s = 19 \<and> s ! 4 = CHR ''-'' \<and> s ! 7 = CHR ''-'' \<and> s ! 10 = CHR '' ''
         \<and> s ! 13 = CHR '':'' \<and> s ! 16 = CHR '':''
      then (case those (map (\<lambda>(i, n). parse_nat (take n (drop i s)))
                         [(0, 4), (5, 2), (8, 2), (11, 2), (14, 2), (17, 2)]) of
              Some [y, m, d, h, mi, sec] \<Rightarrow>
                if valid_date (int y) (int m) (int d) \<and> h < 24 \<and> mi < 60 \<and> sec < 60
                then Some ((rata_die (int y) (int m) (int d) - 719163) * ms_per_day
                           + (int h * 3600 + int mi * 60 + int sec) * 1000)
                else None
            | _ \<Rightarrow> None)
      else None)"

definition reference_lib :: lib where
  "reference_lib =
     \<lparr>to_float32 = (\<lambda>s. map_option of_rat (parse_decimal s)),
      to_datetime_ms = parse_timestamp,
      f32 = (\<lambda>r. r),
      dt_hour = (\<lambda>t. (t mod ms_per_day) div 3600000),
      dt_year = (\<lambda>t. fst (civil_from_days (t div ms_per_day))),
      dt_month = (\<lambda>t. fst (snd (civil_from_days (t div ms_per_day)))),
      dt_day = (\<lambda>t. snd (snd (civil_from_days (t div ms_per_day))))\<rparr>"

text \<open>
  A raw frame as a CSV reader delivers it: an unknown column, names in mixed case with
  blanks, an alias, timestamps as text, numbers with missing values, and no coordinates at
  all.
\<close>

definition sample_raw :: dataframe where
  "sample_raw =
     [(''vendor_id'', \<lparr>dtype = Object, cells = [S ''CMT'', S ''VTS'']\<rparr>),
      ('' Pickup_Datetime'', \<lparr>dtype = Object, cells = [S ''2014-06-15 13:45:10'', S ''2014-06-15 13:46:40'']\<rparr>),
      (''Passenger_Count'', \<lparr>dtype = Int64, cells = [I 2, I 1]\<rparr>),
      (''trip_distance '', \<lparr>dtype = Float64, cells = [F (3 / 2), NA]\<rparr>),
      (''RateCodeID'', \<lparr>dtype = Float64, cells = [F 1, NA]\<rparr>),
      (''Fare_Amount'', \<lparr>dtype = Int64, cells = [I 12, I 7]\<rparr>)]"

definition sample_clean :: dataframe where
  "sample_clean =
     [(''pickup_datetime'', \<lparr>dtype = Datetime64_ms, cells = [T 1402839910000, T 1402840000000]\<rparr>),
      (''passenger_count'', \<lparr>dtype = Int32, cells = [I 2, I 1]\<rparr>),
      (''trip_distance'', \<lparr>dtype = Float32, cells = [F (3 / 2), F (- 1)]\<rparr>),
      (''rate_code'', \<lparr>dtype = Float32, cells = [F 1, F (- 1)]\<rparr>),
      (''fare_amount'', \<lparr>dtype = Int32, cells = [I 12, I 7]\<rparr>)]"

text \<open>A frame with one column: the fare, read as text, with a missing value.\<close>

definition fare_text_raw :: dataframe where
  "fare_text_raw = [(''Fare_Amount'', \<lparr>dtype = Object, cells = [S ''12.5'', NA]\<rparr>)]"

text \<open>
  A frame with the canonical schema and three trips: the first within all bounds with a
  fare of 499.99, picked up and dropped off at latitude 40.703125 and longitude
  -73.99609375, the second with a fare of 501, the third with no passenger.
\<close>

definition sample_trips :: dataframe where
  "sample_trips =
     [(''pickup_datetime'', \<lparr>dtype = Datetime64_ms,
         cells = [T 1402839910000, T 1402840000000, T 1388534400000]\<rparr>),
      (''dropoff_datetime'', \<lparr>dtype = Datetime64_ms,
         cells = [T 1402840510000, T 1402841000000, T 1388534460000]\<rparr>),
      (''passenger_count'', \<lparr>dtype = Int32, cells = [I 2, I 1, I 0]\<rparr>),
      (''trip_distance'', \<lparr>dtype = Float32, cells = [F (3 / 2), F 30, F 1]\<rparr>),
      (''pickup_longitude'', \<lparr>dtype = Float32, cells = [F (- 18943 / 256), F (- 74), F (- 74)]\<rparr>),
      (''pickup_latitude'', \<lparr>dtype = Float32, cells = [F (2605 / 64), F 41, F 41]\<rparr>),
      (''rate_code'', \<lparr>dtype = Int32, cells = [I 1, I 1, I 1]\<rparr>),
      (''dropoff_longitude'', \<lparr>dtype = Float32, cells = [F (- 18943 / 256), F (- 74), F (- 74)]\<rparr>),
      (''dropoff_latitude'', \<lparr>dtype = Float32, cells = [F (2605 / 64), F 41, F 41]\<rparr>),
      (''fare_amount'', \<lparr>dtype = Float32, cells = [F (49999 / 100), F 501, F 10]\<rparr>)]"

text \<open>The same three trips as a CSV reader delivers them, before \<open>clean\<close>.\<close>

definition trips_raw :: dataframe where
  "trips_raw =
     [(''vendor_id'', \<lparr>dtype = Object, cells = [S ''CMT'', S ''VTS'', S ''CMT'']\<rparr>),
      (''tpep_pickup_datetime'', \<lparr>dtype = Object,
         cells = [S ''2014-06-15 13:45:10'', S ''2014-06-15 13:46:40'', S ''2014-01-01 00:00:00'']\<rparr>),
      (''tpep_dropoff_datetime'', \<lparr>dtype = Object,
         cells = [S ''2014-06-15 13:55:10'', S ''2014-06-15 14:03:20'', S ''2014-01-01 00:01:00'']\<rparr>),
      ('' passenger_count'', \<lparr>dtype = Int64, cells = [I 2, I 1, I 0]\<rparr>),
      ('' trip_distance'', \<lparr>dtype = Float64, cells = [F (3 / 2), F 30, F 1]\<rparr>),
      ('' pickup_longitude'', \<lparr>dtype = Float64, cells = [F (- 18943 / 256), F (- 74), F (- 74)]\<rparr>),
      ('' pickup_latitude'', \<lparr>dtype = Float64, cells = [F (2605 / 64), F 41, F 41]\<rparr>),
      (''RatecodeID'', \<lparr>dtype = Int64, cells = [I 1, I 1, I 1]\<rparr>),
      ('' dropoff_longitude'', \<lparr>dtype = Float64, cells = [F (- 18943 / 256), F (- 74), F (- 74)]\<rparr>),
      ('' dropoff_latitude'', \<lparr>dtype = Float64, cells = [F (2605 / 64), F 41, F 41]\<rparr>),
      ('' fare_amount'', \<lparr>dtype = Float64, cells = [F (49999 / 100), F 501, F 10]\<rparr>)]"

definition sample_filtered :: dataframe where
  "sample_filtered =
     [(''pickup_datetime'', \<lparr>dtype = Datetime64_ms, cells = [T 1402839910000]\<rparr>),
      (''dropoff_datetime'', \<lparr>dtype = Datetime64_ms, cells = [T 1402840510000]\<rparr>),
      (''passenger_count'', \<lparr>dtype = Int32, cells = [I 2]\<rparr>),
      (''trip_distance'', \<lparr>dtype = Float32, cells = [F (3 / 2)]\<rparr>),
      (''pickup_longitude'', \<lparr>dtype = Float32, cells = [F (- 18943 / 256)]\<rparr>),
      (''pickup_latitude'', \<lparr>dtype = Float32, cells = [F (2605 / 64)]\<rparr>),
      (''rate_code'', \<lparr>dtype = Int32, cells = [I 1]\<rparr>),
      (''dropoff_longitude'', \<lparr>dtype = Float32, cells = [F (- 18943 / 256)]\<rparr>),
      (''dropoff_latitude'', \<lparr>dtype = Float32, cells = [F (2605 / 64)]\<rparr>),
      (''fare_amount'', \<lparr>dtype = Float32, cells = [F (49999 / 100)]\<rparr>)]"

text \<open>
  A trip whose drop-off is recorded \<open>2\<^sup>3\<^sup>1\<close> milliseconds (24 days, 20 hours, 31 minutes and
  23.648 seconds) after its pick-up at the epoch.
\<close>

definition long_trip :: dataframe where
  "long_trip =
     [(''pickup_datetime'', \<lparr>dtype = Datetime64_ms, cells = [T 0]\<rparr>),
      (''dropoff_datetime'', \<lparr>dtype = Datetime64_ms, cells = [T 2147483648]\<rparr>),
      (''passenger_count'', \<lparr>dtype = Int32, cells = [I 1]\<rparr>),
      (''trip_distance'', \<lparr>dtype = Float32, cells = [F 1]\<rparr>),
      (''pickup_longitude'', \<lparr>dtype = Float32, cells = [F (- 74)]\<rparr>),
      (''pickup_latitude'', \<lparr>dtype = Float32, cells = [F 41]\<rparr>),
      (''rate_code'', \<lparr>dtype = Int32, cells = [I 1]\<rparr>),
      (''dropoff_longitude'', \<lparr>dtype = Float32, cells = [F (- 74)]\<rparr>),
      (''dropoff_latitude'', \<lparr>dtype = Float32, cells = [F 41]\<rparr>),
      (''fare_amount'', \<lparr>dtype = Float32, cells = [F 10]\<rparr>)]"

section \<open>Properties of the day-of-week kernel\<close>

text \<open>The literal \<^verbatim>\<open>2.6\<close> is the binary64 number \<open>0x4004CCCCCCCCCCCD\<close>, a little above \<open>26/10\<close>.\<close>

lemma float64_2_6_value: "float64_2_6 = 5854679515581645 / 2251799813685248"
  by code_simp

text \<open>Known days check the reference calendar.\<close>

lemma weekday_sat0_known_days:
  "weekday_sat0 1970 1 1 = 5" "weekday_sat0 2000 1 1 = 0" "weekday_sat0 2014 6 15 = 1"
  by code_simp+

text \<open>
  For the values that \<open>m\<close> takes on a month between 1 and 12, the floored binary64 product
  is the floor of the exact product.
\<close>

lemma float64_floor_2_6:
  "\<forall>m\<in>set [3..13]. math_floor (float64_mul (float64_of_int m) float64_2_6) = (26 * m) div 10"
  by code_simp

lemma set_3_13: "set [3..13::int] = {3..13}"
  by (simp only: set_upto)

lemma kernel_floor:
  assumes "1 \<le> month" "month \<le> 12"
  shows "math_floor (float64_mul (float64_of_int (month + (if month < 3 then month else 0) + 1)) float64_2_6)
          = (26 * (month + (if month < 3 then month else 0) + 1)) div 10"
proof -
  have "month + (if month < 3 then month else 0) + 1 \<in> set [3..13]"
    using assms unfolding set_3_13 by auto
  then show ?thesis using float64_floor_2_6 by blast
qed

lemma floor_26: "\<lfloor>(26 / 10 :: rat) * of_int m\<rfloor> = (26 * m) div 10"
proof -
  have "(26 / 10 :: rat) * of_int m = of_int (26 * m) / of_int 10" by simp
  then show ?thesis by (simp only: floor_divide_of_int_eq)
qed

lemma floor_q4: "\<lfloor>(of_int y :: rat) / 4\<rfloor> = y div 4"
  using floor_divide_of_int_eq[of y 4, where ?'a = rat] by simp

text \<open>
  Claim C3: on a record (month between 1 and 12) the derived day_of_week is the stated
  congruence \<open>(day + floor(2.6 m) + y + floor(y/4) + floor(c/4) - 2c) mod 7\<close> with
  \<open>shift\<close>, effective year, \<open>y\<close>, \<open>c = 20\<close> and \<open>m = month + shift + 1\<close> as stated; it lies
  in the range 0 to 6; and for day 15, month 6, year 2014 it is the value 1 that the
  congruence gives by hand. The year need not be restricted for this.
\<close>

theorem day_of_week_congruence:
  assumes "1 \<le> month" and "month \<le> 12"
  shows "day_of_the_week_kernel day month year = zeller_spec day month year
         \<and> 0 \<le> day_of_the_week_kernel day month year
         \<and> day_of_the_week_kernel day month year \<le> 6
         \<and> day_of_the_week_kernel 15 6 2014 = 1"
proof -
  have eq: "day_of_the_week_kernel d m y = zeller_spec d m y" if "1 \<le> m" "m \<le> 12" for d m y
    unfolding day_of_the_week_kernel_def zeller_spec_def Let_def kernel_floor[OF that] floor_26 floor_q4
    by simp
  have rng: "0 \<le> day_of_the_week_kernel d m y \<and> day_of_the_week_kernel d m y \<le> 6" for d m y
    by (simp add: day_of_the_week_kernel_def Let_def)
  have ex: "day_of_the_week_kernel 15 6 2014 = 1"
    by code_simp
  show ?thesis using eq[OF assms] rng ex by blast
qed

theorem day_of_week_congruence_witness:
  "(1::int) \<le> 6 \<and> (6::int) \<le> 12
   \<and> day_of_the_week_kernel 15 6 2014 = zeller_spec 15 6 2014
   \<and> day_of_the_week_kernel 15 6 2014 = 1"
  using day_of_week_congruence[of 6 15 2014] by simp

subsection \<open>The kernel against the calendar\<close>

lemma days_before_month_cases:
  "days_before_month y 3 = (if leap_year y then 60 else 59)"
  "days_before_month y 4 = (if leap_year y then 91 else 90)"
  "days_before_month y 5 = (if leap_year y then 121 else 120)"
  "days_before_month y 6 = (if leap_year y then 152 else 151)"
  "days_before_month y 7 = (if leap_year y then 182 else 181)"
  "days_before_month y 8 = (if leap_year y then 213 else 212)"
  "days_before_month y 9 = (if leap_year y then 244 else 243)"
  "days_before_month y 10 = (if leap_year y then 274 else 273)"
  "days_before_month y 11 = (if leap_year y then 305 else 304)"
  "days_before_month y 12 = (if leap_year y then 335 else 334)"
  by (simp_all add: days_before_month_def days_in_month_def upto_rec1)

lemma kernel_closed:
  assumes "3 \<le> m" "m \<le> 12"
  shows "day_of_the_week_kernel d m y =
           (d + (26 * (m + 1)) div 10 + (y - 2000) + (y - 2000) div 4 - 35) mod 7"
  using kernel_floor[of m] assms
  by (simp add: day_of_the_week_kernel_def Let_def)

lemma century_terms:
  assumes "0 \<le> (k::int)" "k \<le> 99"
  shows "(1999 + k) div 100 = (if k = 0 then 19 else 20)"
    and "(1999 + k) div 400 = (if k = 0 then 4 else 5)"
    and "leap_year (2000 + k) = (k mod 4 = 0)"
proof -
  show "(1999 + k) div 100 = (if k = 0 then 19 else 20)" using assms by auto
  show "(1999 + k) div 400 = (if k = 0 then 4 else 5)" using assms by auto
  have c: "(2000 + k) mod 400 = 0 \<longleftrightarrow> k = 0" using assms by presburger
  have d: "(2000 + k) mod 100 = 0 \<longleftrightarrow> k = 0" using assms by presburger
  have e: "(2000 + k) mod 4 = k mod 4" by presburger
  show "leap_year (2000 + k) = (k mod 4 = 0)" unfolding leap_year_def c d e by auto
qed

lemma leap_shift: "(1999 + k) div 4 + (if k mod 4 = 0 then 1 else 0) = 500 + k div (4::int)"
  by presburger

lemma weekday_closed:
  assumes "0 \<le> k" "k \<le> 99"
  shows "weekday_sat0 (2000 + k) m d =
           (d + k + k div 4 + (days_before_month (2000 + k) m - (if k mod 4 = 0 then 1 else 0))) mod 7"
proof -
  have "rata_die (2000 + k) m d + 1 =
          7 * (104303 + 52 * k) + (d + k + ((1999 + k) div 4 - 499) + days_before_month (2000 + k) m - 1)"
    unfolding rata_die_def days_before_year_def
    using century_terms(1,2)[OF assms] by (simp split: if_splits)
  also have "\<dots> = 7 * (104303 + 52 * k)
                 + (d + k + k div 4 + (days_before_month (2000 + k) m - (if k mod 4 = 0 then 1 else 0)))"
    using leap_shift[of k] by (simp split: if_splits)
  finally show ?thesis unfolding weekday_sat0_def by (simp only: mod_mult_self4)
qed

lemma kernel_is_weekday:
  assumes "2000 \<le> y" "y \<le> 2099" "3 \<le> m" "m \<le> 12"
  shows "day_of_the_week_kernel d m y = weekday_sat0 y m d"
proof -
  define k where "k = y - 2000"
  have k: "0 \<le> k" "k \<le> 99" and y: "y = 2000 + k" using assms by (auto simp: k_def)
  have m: "m = 3 \<or> m = 4 \<or> m = 5 \<or> m = 6 \<or> m = 7 \<or> m = 8 \<or> m = 9 \<or> m = 10 \<or> m = 11 \<or> m = 12"
    using assms by arith
  have L: "leap_year (2000 + k) = (k mod 4 = 0)" by (rule century_terms(3)[OF k])
  have "(d + (26 * (m + 1)) div 10 + k + k div 4 - 35) mod 7 =
        (d + k + k div 4 + (days_before_month (2000 + k) m - (if k mod 4 = 0 then 1 else 0))) mod 7"
    using m
  proof (elim disjE)
    have step: "(d + a + k + k div 4 - 35) mod 7 = (d + k + k div 4 + b) mod 7"
      if "a - 35 = b + 7 * n" for a b n :: int
    proof -
      have "d + a + k + k div 4 - 35 = (d + k + k div 4 + b) + 7 * n" using that by simp
      then show ?thesis by (simp only: mod_mult_self2)
    qed
    show "m = 3 \<Longrightarrow> ?thesis"
      using step[of "26 * (3 + 1) div 10" "days_before_month (2000 + k) 3 - (if k mod 4 = 0 then 1 else 0)" "-12"]
      by (simp add: days_before_month_cases L)
    show "m = 4 \<Longrightarrow> ?thesis"
      using step[of "26 * (4 + 1) div 10" "days_before_month (2000 + k) 4 - (if k mod 4 = 0 then 1 else 0)" "-16"]
      by (simp add: days_before_month_cases L)
    show "m = 5 \<Longrightarrow> ?thesis"
      using step[of "26 * (5 + 1) div 10" "days_before_month (2000 + k) 5 - (if k mod 4 = 0 then 1 else 0)" "-20"]
      by (simp add: days_before_month_cases L)
    show "m = 6 \<Longrightarrow> ?thesis"
      using step[of "26 * (6 + 1) div 10" "days_before_month (2000 + k) 6 - (if k mod 4 = 0 then 1 else 0)" "-24"]
      by (simp add: days_before_month_cases L)
    show "m = 7 \<Longrightarrow> ?thesis"
      using step[of "26 * (7 + 1) div 10" "days_before_month (2000 + k) 7 - (if k mod 4 = 0 then 1 else 0)" "-28"]
      by (simp add: days_before_month_cases L)
    show "m = 8 \<Longrightarrow> ?thesis"
      using step[of "26 * (8 + 1) div 10" "days_before_month (2000 + k) 8 - (if k mod 4 = 0 then 1 else 0)" "-32"]
      by (simp add: days_before_month_cases L)
    show "m = 9 \<Longrightarrow> ?thesis"
      using step[of "26 * (9 + 1) div 10" "days_before_month (2000 + k) 9 - (if k mod 4 = 0 then 1 else 0)" "-36"]
      by (simp add: days_before_month_cases L)
    show "m = 10 \<Longrightarrow> ?thesis"
      using step[of "26 * (10 + 1) div 10" "days_before_month (2000 + k) 10 - (if k mod 4 = 0 then 1 else 0)" "-40"]
      by (simp add: days_before_month_cases L)
    show "m = 11 \<Longrightarrow> ?thesis"
      using step[of "26 * (11 + 1) div 10" "days_before_month (2000 + k) 11 - (if k mod 4 = 0 then 1 else 0)" "-44"]
      by (simp add: days_before_month_cases L)
    show "m = 12 \<Longrightarrow> ?thesis"
      using step[of "26 * (12 + 1) div 10" "days_before_month (2000 + k) 12 - (if k mod 4 = 0 then 1 else 0)" "-48"]
      by (simp add: days_before_month_cases L)
  qed
  then show ?thesis
    unfolding y kernel_closed[OF assms(3,4)] weekday_closed[OF k] by simp
qed

lemma january_february_2014:
  "day_of_the_week_kernel 4 1 2014 = 6" "weekday_sat0 2014 1 4 = 0"
  "day_of_the_week_kernel 1 2 2014 = 2" "weekday_sat0 2014 2 1 = 0"
  by code_simp+

text \<open>
  Claim C10: for every Gregorian date from March to December of a year in 2000 to 2099 the
  kernel's day_of_week is the weekday of the date with Saturday = 0, Sunday = 1, ...,
  Friday = 6, so \<open>day_of_week < 2\<close> holds exactly on Saturdays and Sundays. In January and
  February, where the kernel takes \<open>m = 2 month + 1\<close>, the correspondence is lost: Saturday
  the fourth of January 2014 gets 6 and Saturday the first of February 2014 gets 2, and
  neither is flagged as weekend.
\<close>

theorem day_of_week_is_weekday_from_march:
  assumes "valid_date year month day" and "3 \<le> month" and "2000 \<le> year" and "year \<le> 2099"
  shows "day_of_the_week_kernel day month year = weekday_sat0 year month day
         \<and> (day_of_the_week_kernel day month year < 2 \<longleftrightarrow> is_saturday_or_sunday year month day)
         \<and> is_saturday_or_sunday 2014 1 4 \<and> \<not> day_of_the_week_kernel 4 1 2014 < 2
         \<and> is_saturday_or_sunday 2014 2 1 \<and> \<not> day_of_the_week_kernel 1 2 2014 < 2"
proof -
  have m: "month \<le> 12" using assms(1) by (simp add: valid_date_def)
  have eq: "day_of_the_week_kernel day month year = weekday_sat0 year month day"
    by (rule kernel_is_weekday[OF assms(3,4) assms(2) m])
  have "0 \<le> weekday_sat0 year month day" by (simp add: weekday_sat0_def)
  then have wk: "weekday_sat0 year month day < 2 \<longleftrightarrow> is_saturday_or_sunday year month day"
    unfolding is_saturday_or_sunday_def by arith
  show ?thesis
    using eq wk by (simp add: january_february_2014 is_saturday_or_sunday_def)
qed

theorem day_of_week_is_weekday_from_march_witness:
  "valid_date 2014 6 15 \<and> (3::int) \<le> 6 \<and> (2000::int) \<le> 2014 \<and> (2014::int) \<le> 2099
   \<and> day_of_the_week_kernel 15 6 2014 = weekday_sat0 2014 6 15
   \<and> is_saturday_or_sunday 2014 6 15"
proof -
  have v: "valid_date 2014 6 15" by (simp add: valid_date_def days_in_month_def)
  have s: "is_saturday_or_sunday 2014 6 15"
    by (simp add: is_saturday_or_sunday_def weekday_sat0_known_days)
  show ?thesis using v s day_of_week_is_weekday_from_march[of 2014 6 15] by simp
qed

section \<open>Properties of \<open>clean\<close>\<close>

subsection \<open>The two renamings\<close>

lemma map_of_self_map: "n \<in> set xs \<Longrightarrow> map_of (map (\<lambda>col. (col, f col)) xs) n = Some (f n)"
  by (induction xs) auto

lemma map_names_cong:
  "(\<forall>n\<in>set (map fst df). h n = g n) \<Longrightarrow>
     map (\<lambda>(n, c). (h n, c)) df = map (\<lambda>(n, c). (g n, c)) (df :: dataframe)"
  by (induction df) auto

lemma rename_twice:
  "rename_columns rm (rename_columns (map (\<lambda>col. (col, lower (strip col))) (columns df)) df) = renamed rm df"
proof -
  let ?tmp = "map (\<lambda>col. (col, lower (strip col))) (columns df)"
  have "\<forall>n\<in>set (map fst df). (case map_of ?tmp n of None \<Rightarrow> n | Some n' \<Rightarrow> n') = lower (strip n)"
  proof
    fix n assume "n \<in> set (map fst df)"
    then have "map_of ?tmp n = Some (lower (strip n))"
      unfolding columns_def by (rule map_of_self_map)
    then show "(case map_of ?tmp n of None \<Rightarrow> n | Some n' \<Rightarrow> n') = lower (strip n)" by simp
  qed
  from map_names_cong[OF this]
  have 1: "rename_columns ?tmp df = map (\<lambda>(n, c). (lower (strip n), c)) df"
    unfolding rename_columns_def .
  have 2: "rename_columns rm (map (\<lambda>(n, c). (lower (strip n), c)) df) = renamed rm df"
    by (auto simp: rename_columns_def renamed_def canonical_name_def split: option.splits)
  show ?thesis unfolding 1 2 ..
qed

lemma clean_alt: "clean L df rm mh = for_each (clean_body L mh) (columns (renamed rm df)) (renamed rm df)"
  by (simp add: clean_def Let_def rename_twice)

lemma columns_renamed: "columns (renamed rm df) = map (canonical_name rm) (columns df)"
  by (auto simp: renamed_def columns_def)

subsection \<open>The loop, column by column\<close>

text \<open>
  While the names are distinct, the statements of the loop body read and write the one
  column they name and leave the columns before and after it alone.
\<close>

lemma map_of_mid: "n \<notin> fst ` set pre \<Longrightarrow> map_of (pre @ (n, c) # post) n = Some c"
  by (induction pre) auto

lemma getitem_mid: "n \<notin> fst ` set pre \<Longrightarrow> getitem (pre @ (n, c) # post) n = Inr c"
  by (simp add: getitem_def map_of_mid del: map_of_append)

lemma setitem_mid:
  assumes "n \<notin> fst ` set pre" "n \<notin> fst ` set post"
  shows "setitem (pre @ (n, c) # post) n c' = pre @ (n, c') # post"
proof -
  have a: "map (\<lambda>(m, x). if m = n then (m, c') else (m, x)) xs = xs" if "n \<notin> fst ` set xs" for xs :: dataframe
    using that by (induction xs) auto
  show ?thesis using assms by (simp add: setitem_def columns_def a)
qed

lemma drop_column_mid:
  assumes "n \<notin> fst ` set pre" "n \<notin> fst ` set post"
  shows "drop_column n (pre @ (n, c) # post) = Inr (pre @ post)"
proof -
  have a: "filter (\<lambda>(m, x). m \<noteq> n) xs = xs" if "n \<notin> fst ` set xs" for xs :: dataframe
    using that by (induction xs) auto
  show ?thesis using assms by (simp add: drop_column_def columns_def a)
qed

lemma column_dtype_mid:
  assumes "n \<notin> fst ` set pre" "n \<notin> fst ` set post"
  shows "column_dtype (pre @ (n, c) # post) n = Inr (dtype c)"
proof -
  have a: "filter (\<lambda>(m, x). m = n) xs = []" if "n \<notin> fst ` set xs" for xs :: dataframe
    using that by (induction xs) auto
  show ?thesis using assms by (simp add: column_dtype_def a)
qed

lemma update_column_mid:
  assumes "n \<notin> fst ` set pre" "n \<notin> fst ` set post"
  shows "update_column (pre @ (n, c) # post) n f =
           (case f c of Inl e \<Rightarrow> Inl e | Inr c' \<Rightarrow> Inr (pre @ (n, c') # post))"
  using assms by (simp add: update_column_def getitem_mid setitem_mid bnd_def split: sum.splits)

lemma clean_body_mid:
  assumes "n \<notin> fst ` set pre" "n \<notin> fst ` set post"
  shows "clean_body L mh n (pre @ (n, c) # post) =
           (if map_of mh n = None then Inr (pre @ post)
            else case normalize_column L n c of Inl e \<Rightarrow> Inl e | Inr c' \<Rightarrow> Inr (pre @ (n, c') # post))"
  using assms
  by (simp add: clean_body_def normalize_column_def drop_column_mid column_dtype_mid update_column_mid
        str_fillna_def bnd_def split: sum.splits)

lemma for_each_clean:
  assumes "distinct (map fst (pre @ todo))"
  shows "for_each (clean_body L mh) (map fst todo) (pre @ todo) =
           (case clean_columns L mh todo of Inl e \<Rightarrow> Inl e | Inr t' \<Rightarrow> Inr (pre @ t'))"
  using assms
proof (induction todo arbitrary: pre)
  case Nil
  then show ?case by simp
next
  case (Cons a todo)
  obtain n c where a: "a = (n, c)" by (cases a)
  have n1: "n \<notin> fst ` set pre" and n2: "n \<notin> fst ` set todo"
    using Cons.prems by (auto simp: a)
  show ?case
  proof (cases "map_of mh n = None")
    case True
    have d: "distinct (map fst (pre @ todo))" using Cons.prems by (simp add: a)
    show ?thesis using True Cons.IH[OF d]
      by (simp add: a clean_body_mid[OF n1 n2])
  next
    case False
    then obtain t where t: "map_of mh n = Some t" by auto
    show ?thesis
    proof (cases "normalize_column L n c")
      case (Inl e)
      then show ?thesis by (simp add: a t clean_body_mid[OF n1 n2])
    next
      case (Inr c')
      have d: "distinct (map fst ((pre @ [(n, c')]) @ todo))" using Cons.prems by (simp add: a)
      show ?thesis using Inr Cons.IH[OF d]
        by (simp add: a t clean_body_mid[OF n1 n2] split: sum.splits)
    qed
  qed
qed

lemma clean_is_clean_columns:
  assumes "distinct (map (canonical_name rm) (columns df))"
  shows "clean L df rm mh = clean_columns L mh (renamed rm df)"
proof -
  have "distinct (map fst ([] @ renamed rm df))"
    using assms columns_renamed[of rm df] by (simp add: columns_def)
  from for_each_clean[OF this, of L mh] show ?thesis
    by (simp add: clean_alt columns_def split: sum.splits)
qed

subsection \<open>Names and dtypes of the result\<close>

lemma astype_dtype: "astype L t c = Inr c' \<Longrightarrow> dtype c' = t"
  by (auto simp: astype_def split: option.splits)

lemma contains_int_cases:
  "contains ''int'' (dtype_str d) \<longleftrightarrow> d \<in> {Int8, Int16, Int32, Int64, UInt8, UInt16, UInt32, UInt64}"
  by (cases d) simp_all

lemma contains_float_cases:
  "contains ''float'' (dtype_str d) \<longleftrightarrow> d \<in> {Float32, Float64}"
  by (cases d) simp_all

lemma contains_datetime_cases:
  "contains ''datetime'' (dtype_str d) \<longleftrightarrow> d \<in> {Datetime64_ms, Datetime64_ns}"
  by (cases d) simp_all

lemma normalize_column_dtype:
  assumes "normalize_column L n c = Inr c'"
  shows "dtype c' = normalized_dtype (dtype c)"
proof (cases "dtype c")
  case Object
  then show ?thesis using assms
    by (auto simp: normalize_column_def normalized_dtype_def str_fillna_def bnd_def
          dest: astype_dtype split: if_splits)
qed (use assms in \<open>auto simp: normalize_column_def normalized_dtype_def bnd_def fillna_def
       dest!: astype_dtype split: if_splits sum.splits\<close>)

lemma clean_columns_names:
  "clean_columns L mh df = Inr df' \<Longrightarrow>
     map (\<lambda>(n, c). (n, dtype c)) df' =
     map (\<lambda>(n, c). (n, normalized_dtype (dtype c))) (filter (\<lambda>(n, c). map_of mh n \<noteq> None) df)"
proof (induction df arbitrary: df')
  case Nil
  then show ?case by simp
next
  case (Cons a df)
  obtain n c where a: "a = (n, c)" by (cases a)
  show ?case using Cons.prems Cons.IH
    by (auto simp: a normalize_column_dtype split: if_splits sum.splits)
qed

subsection \<open>Names that collide\<close>

text \<open>
  No statement of the loop body adds a name to the frame: a pass keeps the names as they
  are, or removes every column of the name it was given.
\<close>

lemma update_column_names:
  assumes "update_column df n f = Inr df'"
  shows "map fst df' = map fst df"
proof -
  have a: "map fst (map (\<lambda>(m, x). if m = n then (m, c') else (m, x)) xs) = map fst xs"
    for xs :: dataframe and c'
    by (induction xs) auto
  from assms obtain c c' where "getitem df n = Inr c" and df': "df' = setitem df n c'"
    by (auto simp: update_column_def bnd_def split: sum.splits)
  then have "map_of df n = Some c"
    by (simp add: getitem_def split: option.splits)
  then have "(n, c) \<in> set df" by (rule map_of_SomeD)
  then have "n \<in> set (columns df)" by (force simp: columns_def)
  then have "df' = map (\<lambda>(m, x). if m = n then (m, c') else (m, x)) df"
    by (simp add: df' setitem_def)
  then show ?thesis by (simp only: a)
qed

lemma clean_body_names:
  assumes "clean_body L mh n df = Inr df'"
  shows "map fst df' = map fst df \<or> map fst df' = filter (\<lambda>m. m \<noteq> n) (map fst df)"
proof (cases "map_of mh n = None")
  case True
  have a: "map fst (filter (\<lambda>(m, x). m \<noteq> n) xs) = filter (\<lambda>m. m \<noteq> n) (map fst xs)"
    for xs :: dataframe
    by (induction xs) auto
  from True assms have "df' = filter (\<lambda>(m, x). m \<noteq> n) df"
    by (auto simp: clean_body_def drop_column_def split: if_splits)
  then show ?thesis by (simp add: a)
next
  case False
  then have "map fst df' = map fst df"
    using assms
    by (auto simp: clean_body_def bnd_def str_fillna_def
          split: sum.splits if_splits dest!: update_column_names)
  then show ?thesis ..
qed

lemma clean_body_missing:
  assumes "n \<notin> fst ` set df"
  shows "\<exists>e. clean_body L mh n df = Inl e"
proof -
  have "filter (\<lambda>(m, x). m = n) df = []"
    using assms by (induction df) auto
  then show ?thesis
    using assms by (simp add: clean_body_def drop_column_def columns_def column_dtype_def bnd_def)
qed

lemma for_each_clean_missing:
  assumes "m \<in> set todo" and "m \<notin> fst ` set df"
  shows "\<exists>e. for_each (clean_body L mh) todo df = Inl e"
  using assms
proof (induction todo arbitrary: df)
  case Nil
  then show ?case by simp
next
  case (Cons n todo)
  show ?case
  proof (cases "clean_body L mh n df")
    case (Inl e)
    then show ?thesis by simp
  next
    case (Inr df')
    from clean_body_names[OF Inr] have "set (map fst df') \<subseteq> set (map fst df)"
      by (metis filter_is_subset order_refl)
    then have nin: "m \<notin> fst ` set df'" using Cons.prems(2) by (auto simp del: set_map simp: set_map[symmetric])
    have "m \<noteq> n" using clean_body_missing[of m df L mh] Cons.prems(2) Inr by auto
    then have "m \<in> set todo" using Cons.prems(1) by simp
    from Cons.IH[OF this nin] show ?thesis by (simp add: Inr)
  qed
qed

lemma length_filter_name: "length (filter (\<lambda>(m, x). m = n) df) = count_list (map fst df) n"
  by (induction df) auto

lemma column_dtype_duplicate:
  assumes "2 \<le> count_list (map fst df) n"
  shows "column_dtype df n = Inl AttributeError"
proof -
  from assms have "2 \<le> length (filter (\<lambda>(m, x). m = n) df)" by (simp add: length_filter_name)
  then obtain a b rest where "filter (\<lambda>(m, x). m = n) df = a # b # rest"
    by (auto simp: Suc_le_length_iff numeral_2_eq_2)
  then show ?thesis by (cases a) (simp add: column_dtype_def)
qed

lemma count_list_filter_other: "m \<noteq> n \<Longrightarrow> count_list (filter (\<lambda>k. k \<noteq> n) xs) m = count_list xs m"
  by (induction xs) auto

lemma for_each_clean_duplicate:
  assumes "\<not> distinct todo" and "\<forall>m\<in>set todo. count_list (map fst df) m = count_list todo m"
  shows "\<exists>e. for_each (clean_body L mh) todo df = Inl e"
  using assms
proof (induction todo arbitrary: df)
  case Nil
  then show ?case by simp
next
  case (Cons n todo)
  show ?case
  proof (cases "clean_body L mh n df")
    case (Inl e)
    then show ?thesis by simp
  next
    case (Inr df')
    note names = clean_body_names[OF Inr]
    show ?thesis
    proof (cases "n \<in> set todo")
      case True
      then have "0 < count_list todo n" using count_list_0_iff[of todo n] by simp
      then have two: "2 \<le> count_list (map fst df) n" using Cons.prems(2) by simp
      have "map_of mh n = None"
      proof (rule ccontr)
        assume "map_of mh n \<noteq> None"
        then obtain t where "map_of mh n = Some t" by auto
        then have "clean_body L mh n df = Inl AttributeError"
          by (simp add: clean_body_def column_dtype_duplicate[OF two] bnd_def)
        with Inr show False by simp
      qed
      then have "df' = filter (\<lambda>(m, x). m \<noteq> n) df"
        using Inr by (auto simp: clean_body_def drop_column_def split: if_splits)
      then have "n \<notin> fst ` set df'" by auto
      from for_each_clean_missing[OF True this] show ?thesis by (simp add: Inr)
    next
      case False
      then have d: "\<not> distinct todo" using Cons.prems(1) by simp
      have "\<forall>m\<in>set todo. count_list (map fst df') m = count_list todo m"
      proof
        fix m assume m: "m \<in> set todo"
        then have ne: "m \<noteq> n" using False by auto
        have "count_list (map fst df') m = count_list (map fst df) m"
          using names by (auto simp: count_list_filter_other[OF ne])
        also have "\<dots> = count_list (n # todo) m" using Cons.prems(2) m by simp
        also have "\<dots> = count_list todo m" using ne by simp
        finally show "count_list (map fst df') m = count_list todo m" .
      qed
      from Cons.IH[OF d this] show ?thesis by (simp add: Inr)
    qed
  qed
qed

text \<open>Two columns whose names become the same make \<open>clean\<close> raise.\<close>

lemma clean_raises_on_duplicates:
  assumes "\<not> distinct (map (canonical_name rm) (columns df))"
  shows "\<exists>e. clean L df rm mh = Inl e"
proof -
  have "\<not> distinct (columns (renamed rm df))" using assms by (simp add: columns_renamed)
  moreover have "\<forall>m\<in>set (columns (renamed rm df)).
                   count_list (map fst (renamed rm df)) m = count_list (columns (renamed rm df)) m"
    by (simp add: columns_def)
  ultimately show ?thesis
    unfolding clean_alt by (rule for_each_clean_duplicate)
qed
subsection \<open>When the loop gets through a column\<close>

lemma those_map_Some:
  "those (map f xs) = Some ys \<longleftrightarrow> (\<forall>x\<in>set xs. f x \<noteq> None) \<and> ys = map (\<lambda>x. the (f x)) xs"
  by (induction xs arbitrary: ys) (auto split: option.splits)

lemma astype_returns:
  assumes "\<forall>x\<in>set (cells c). cast_cell L t x \<noteq> None"
  shows "\<exists>xs. astype L t c = Inr \<lparr>dtype = t, cells = xs\<rparr>"
proof -
  have "those (map (cast_cell L t) (cells c)) = Some (map (\<lambda>x. the (cast_cell L t x)) (cells c))"
    using assms by (simp add: those_map_Some)
  then show ?thesis by (simp add: astype_def)
qed

lemma cast_cell_int:
  "contains ''int'' (dtype_str d) \<Longrightarrow> cell_ok d x \<Longrightarrow> cast_cell L Int32 x \<noteq> None"
  by (cases x; cases d) (simp_all add: cell_ok_def cast_cell_def)

lemma cast_cell_float:
  "contains ''float'' (dtype_str d) \<Longrightarrow> cell_ok d x \<Longrightarrow> cast_cell L Float32 x \<noteq> None"
  by (cases x; cases d) (simp_all add: cell_ok_def cast_cell_def)

lemma cast_cell_timestamp:
  assumes "cell_ok Object x" and "case x of S s \<Rightarrow> to_datetime_ms L s \<noteq> None | _ \<Rightarrow> True"
  shows "cast_cell L Datetime64_ms x \<noteq> None"
  using assms by (cases x) (simp_all add: cell_ok_def cast_cell_def)

lemma normalize_column_returns:
  assumes "convertible L n c"
  shows "\<exists>c'. normalize_column L n c = Inr c'"
proof -
  from assms have ok: "\<forall>x\<in>set (cells c). cell_ok (dtype c) x"
    by (simp add: convertible_def list_all_iff)
  show ?thesis
  proof (cases "dtype c = Object")
    case True
    with assms have ts: "n \<in> set [''pickup_datetime'', ''dropoff_datetime'']"
      and conv: "\<forall>x\<in>set (cells c). case x of S s \<Rightarrow> to_datetime_ms L s \<noteq> None | _ \<Rightarrow> True"
      by (simp_all add: convertible_def list_all_iff)
    have "\<forall>x\<in>set (cells c). cast_cell L Datetime64_ms x \<noteq> None"
    proof
      fix x assume x: "x \<in> set (cells c)"
      show "cast_cell L Datetime64_ms x \<noteq> None"
      proof (rule cast_cell_timestamp)
        show "cell_ok Object x" using ok x True by auto
        show "case x of S s \<Rightarrow> to_datetime_ms L s \<noteq> None | _ \<Rightarrow> True" using conv x by blast
      qed
    qed
    from astype_returns[OF this] show ?thesis
      using True ts by (auto simp: normalize_column_def)
  next
    case False
    show ?thesis
    proof (cases "contains ''int'' (dtype_str (dtype c))")
      case True
      have "\<forall>x\<in>set (cells c). cast_cell L Int32 x \<noteq> None"
      proof
        fix x assume "x \<in> set (cells c)"
        then have "cell_ok (dtype c) x" using ok by blast
        with True show "cast_cell L Int32 x \<noteq> None" by (rule cast_cell_int)
      qed
      from astype_returns[OF this] show ?thesis
        using True False by (auto simp: normalize_column_def bnd_def)
    next
      case noint: False
      show ?thesis
      proof (cases "contains ''float'' (dtype_str (dtype c))")
        case True
        have "\<forall>x\<in>set (cells c). cast_cell L Float32 x \<noteq> None"
        proof
          fix x assume "x \<in> set (cells c)"
          then have "cell_ok (dtype c) x" using ok by blast
          with True show "cast_cell L Float32 x \<noteq> None" by (rule cast_cell_float)
        qed
        from astype_returns[OF this] show ?thesis
          using True False noint by (auto simp: normalize_column_def bnd_def)
      next
        case False
        then show ?thesis
          using noint \<open>dtype c \<noteq> Object\<close> by (simp add: normalize_column_def bnd_def)
      qed
    qed
  qed
qed

lemma normalize_column_text:
  assumes "dtype c = Object" and "n \<notin> set [''pickup_datetime'', ''dropoff_datetime'']"
  shows "normalize_column L n c = Inl AttributeError"
  using assms by (simp add: normalize_column_def str_fillna_def bnd_def)

lemma clean_columns_fst:
  "clean_columns L mh df = Inr df' \<Longrightarrow> map fst df' = filter (\<lambda>n. map_of mh n \<noteq> None) (map fst df)"
proof -
  assume "clean_columns L mh df = Inr df'"
  from clean_columns_names[OF this]
  have "map fst (map (\<lambda>(n, c). (n, dtype c)) df') =
        map fst (map (\<lambda>(n, c). (n, normalized_dtype (dtype c))) (filter (\<lambda>(n, c). map_of mh n \<noteq> None) df))"
    by simp
  then show ?thesis
    by (simp add: case_prod_unfold comp_def filter_map)
qed

lemma clean_columns_error:
  assumes "(n, c) \<in> set xs" and "map_of mh n \<noteq> None" and "normalize_column L n c = Inl e"
  shows "\<exists>e'. clean_columns L mh xs = Inl e'"
  using assms
  by (induction xs) (auto split: sum.splits)

lemma clean_columns_returns:
  assumes "\<forall>(n, c)\<in>set xs. map_of mh n \<noteq> None \<longrightarrow> (\<exists>c'. normalize_column L n c = Inr c')"
  shows "\<exists>df'. clean_columns L mh xs = Inr df'"
  using assms
  by (induction xs) (auto split: sum.splits)

text \<open>A column read as text that is kept and is no timestamp column makes \<open>clean\<close> raise.\<close>

lemma clean_raises_on_text:
  assumes "(n, c) \<in> set (renamed rm df)" and "dtype c = Object" and "map_of mh n \<noteq> None"
      and "n \<notin> set [''pickup_datetime'', ''dropoff_datetime'']"
  shows "\<exists>e. clean L df rm mh = Inl e"
proof (cases "distinct (map (canonical_name rm) (columns df))")
  case True
  from clean_columns_error[OF assms(1,3) normalize_column_text[OF assms(2,4)]]
  show ?thesis by (simp add: clean_is_clean_columns[OF True])
next
  case False
  then show ?thesis by (rule clean_raises_on_duplicates)
qed

subsection \<open>The claims about the column set and about textual columns\<close>

lemma sample_clean_eq: "clean reference_lib sample_raw remap must_haves = Inr sample_clean"
  by code_simp

lemma dtype_of_member:
  assumes "distinct (map fst xs)"
      and "map (\<lambda>(n, c). (n, dtype c)) xs = map (\<lambda>(n, c). (n, g (dtype c))) ys"
      and "(n, c) \<in> set ys"
  shows "map_option dtype (map_of xs n) = Some (g (dtype c))"
proof -
  have "(n, g (dtype c)) \<in> set (map (\<lambda>(n, c). (n, g (dtype c))) ys)"
    using assms(3) by force
  then have "(n, g (dtype c)) \<in> set (map (\<lambda>(n, c). (n, dtype c)) xs)"
    by (simp only: assms(2))
  then obtain c' where c': "(n, c') \<in> set xs" "dtype c' = g (dtype c)" by auto
  from assms(1) c'(1) have "map_of xs n = Some c'" by (rule map_of_is_SomeI)
  then show ?thesis by (simp add: c'(2))
qed

text \<open>
  Claim C1, as the code has it: \<open>clean\<close> renames and drops, and never adds a column. When
  it returns, the trimmed, lower-cased and alias-renamed names of the input columns are
  distinct, and the columns of the result are exactly the input columns whose such name is
  a key of the schema, in their input order; so the set of output names is the set of
  these input names intersected with the schema names, and a schema column absent from the
  input is absent from the output. The dtype of a kept column that was read as a number,
  or as text under one of the two timestamp names, is decided by the dtype it came with
  (\<open>normalized_dtype\<close>), not by the dtype the schema declares. \<open>clean\<close> does return
  whenever the names are distinct and every kept column is \<open>convertible\<close>.
\<close>

theorem clean_keeps_known_columns:
  "(clean L df rm mh = Inr df' \<longrightarrow>
        distinct (map (canonical_name rm) (columns df))
      \<and> columns df' = filter (\<lambda>n. map_of mh n \<noteq> None) (map (canonical_name rm) (columns df))
      \<and> set (columns df') = set (map (canonical_name rm) (columns df)) \<inter> set (map fst mh)
      \<and> (\<forall>(n, c)\<in>set (renamed rm df).
            map_of mh n \<noteq> None
            \<and> (dtype c = Object \<longrightarrow> n \<in> set [''pickup_datetime'', ''dropoff_datetime''])
            \<longrightarrow> map_option dtype (map_of df' n) = Some (normalized_dtype (dtype c))))
   \<and> (distinct (map (canonical_name rm) (columns df))
      \<and> (\<forall>(n, c)\<in>set (renamed rm df). map_of mh n \<noteq> None \<longrightarrow> convertible L n c)
      \<longrightarrow> (\<exists>df''. clean L df rm mh = Inr df''))"
proof (intro conjI impI)
  assume ret: "clean L df rm mh = Inr df'"
  show dis: "distinct (map (canonical_name rm) (columns df))"
    using clean_raises_on_duplicates[of rm df L mh] ret by auto
  have cc: "clean_columns L mh (renamed rm df) = Inr df'"
    using ret clean_is_clean_columns[OF dis] by simp
  show 1: "columns df' = filter (\<lambda>n. map_of mh n \<noteq> None) (map (canonical_name rm) (columns df))"
    using clean_columns_fst[OF cc] columns_renamed[of rm df] by (simp add: columns_def)
  have "set (columns df') = {n \<in> set (map (canonical_name rm) (columns df)). map_of mh n \<noteq> None}"
    unfolding 1 by simp
  also have "\<dots> = set (map (canonical_name rm) (columns df)) \<inter> set (map fst mh)"
    by (auto simp: map_of_eq_None_iff)
  finally show "set (columns df') = set (map (canonical_name rm) (columns df)) \<inter> set (map fst mh)" .
  have d': "distinct (map fst df')"
    using dis 1 by (simp add: columns_def)
  show "\<forall>(n, c)\<in>set (renamed rm df).
            map_of mh n \<noteq> None
            \<and> (dtype c = Object \<longrightarrow> n \<in> set [''pickup_datetime'', ''dropoff_datetime''])
            \<longrightarrow> map_option dtype (map_of df' n) = Some (normalized_dtype (dtype c))"
  proof -
    have "map_option dtype (map_of df' n) = Some (normalized_dtype (dtype c))"
      if "(n, c) \<in> set (renamed rm df)" and "map_of mh n \<noteq> None" for n c
    proof -
      from that have "(n, c) \<in> set (filter (\<lambda>(n, c). map_of mh n \<noteq> None) (renamed rm df))" by simp
      from dtype_of_member[OF d' clean_columns_names[OF cc] this] show ?thesis .
    qed
    then show ?thesis by blast
  qed
next
  assume a: "distinct (map (canonical_name rm) (columns df))
      \<and> (\<forall>(n, c)\<in>set (renamed rm df). map_of mh n \<noteq> None \<longrightarrow> convertible L n c)"
  then have "\<forall>(n, c)\<in>set (renamed rm df). map_of mh n \<noteq> None \<longrightarrow> (\<exists>c'. normalize_column L n c = Inr c')"
    by (auto intro: normalize_column_returns)
  from clean_columns_returns[OF this] show "\<exists>df''. clean L df rm mh = Inr df''"
    using a by (simp add: clean_is_clean_columns)
qed

lemma sample_raw_facts:
  "renamed remap sample_raw =
     [(''vendor_id'', \<lparr>dtype = Object, cells = [S ''CMT'', S ''VTS'']\<rparr>),
      (''pickup_datetime'', \<lparr>dtype = Object, cells = [S ''2014-06-15 13:45:10'', S ''2014-06-15 13:46:40'']\<rparr>),
      (''passenger_count'', \<lparr>dtype = Int64, cells = [I 2, I 1]\<rparr>),
      (''trip_distance'', \<lparr>dtype = Float64, cells = [F (3 / 2), NA]\<rparr>),
      (''rate_code'', \<lparr>dtype = Float64, cells = [F 1, NA]\<rparr>),
      (''fare_amount'', \<lparr>dtype = Int64, cells = [I 12, I 7]\<rparr>)]"
  "map (\<lambda>n. map_of must_haves n \<noteq> None)
     [''vendor_id'', ''pickup_datetime'', ''passenger_count'', ''trip_distance'', ''rate_code'', ''fare_amount'']
     = [False, True, True, True, True, True]"
  "map normalized_dtype [Object, Int64, Float64] = [Datetime64_ms, Int32, Float32]"
  by code_simp+

text \<open>
  On \<open>sample_raw\<close>: the unknown column is dropped, the five others are kept under their
  canonical names, the text timestamps become millisecond timestamps, the integers int32
  and the floats float32.
\<close>

theorem clean_keeps_known_columns_witness:
  "clean reference_lib sample_raw remap must_haves = Inr sample_clean
   \<and> distinct (map (canonical_name remap) (columns sample_raw))
   \<and> columns sample_clean =
       filter (\<lambda>n. map_of must_haves n \<noteq> None) (map (canonical_name remap) (columns sample_raw))
   \<and> map (\<lambda>n. map_option dtype (map_of sample_clean n))
         [''pickup_datetime'', ''passenger_count'', ''trip_distance'', ''rate_code'', ''fare_amount'']
       = map Some [Datetime64_ms, Int32, Float32, Float32, Int32]"
  using clean_keeps_known_columns[of reference_lib sample_raw remap must_haves sample_clean]
        sample_clean_eq sample_raw_facts(2,3)
  by (simp add: sample_raw_facts(1))

text \<open>
  The claim as stated fails on \<open>sample_raw\<close>: the result lacks the schema column
  \<open>pickup_latitude\<close>, which the input does not have, and its \<open>fare_amount\<close>, read as
  int64, is int32 where the schema declares float32.
\<close>

theorem clean_schema_counterexample:
  "clean reference_lib sample_raw remap must_haves = Inr sample_clean
   \<and> set (columns sample_clean) \<noteq> set (map fst must_haves)
   \<and> map_of must_haves ''pickup_latitude'' = Some Float32
   \<and> map_of sample_clean ''pickup_latitude'' = None
   \<and> map_of must_haves ''fare_amount'' = Some Float32
   \<and> map_option dtype (map_of sample_clean ''fare_amount'') = Some Int32"
  by code_simp

lemma fare_text_raw_facts:
  "(''Fare_Amount'', \<lparr>dtype = Object, cells = [S ''12.5'', NA]\<rparr>) \<in> set fare_text_raw"
  "dtype \<lparr>dtype = Object, cells = [S ''12.5'', NA]\<rparr> = Object"
  "map_of must_haves (canonical_name remap ''Fare_Amount'') \<noteq> None"
  "canonical_name remap ''Fare_Amount'' \<notin> set [''pickup_datetime'', ''dropoff_datetime'']"
  by code_simp+

text \<open>
  Claim C2 against the code: a column that was read as text, is kept and is not one of the
  two timestamp columns takes the branch whose first statement is
  \<^verbatim>\<open>df_part[col] = df_part[col].str.fillna('-1')\<close>, and that statement raises. So
  \<open>clean\<close> raises on every frame with such a column, whatever the column holds and
  whatever the library converts: no missing value is replaced by \<open>-1\<close>, and the cast to
  float32 is not reached. On \<open>fare_text_raw\<close>, where the fare is text with one missing
  value, the error is the \<^verbatim>\<open>AttributeError\<close> of that statement.
\<close>

theorem clean_text_column_raises:
  assumes "(n, c) \<in> set df" and "dtype c = Object"
      and "map_of mh (canonical_name rm n) \<noteq> None"
      and "canonical_name rm n \<notin> set [''pickup_datetime'', ''dropoff_datetime'']"
  shows "(\<exists>e. clean L df rm mh = Inl e)
       \<and> clean L fare_text_raw remap must_haves = Inl AttributeError"
proof
  have "(canonical_name rm n, c) \<in> set (renamed rm df)"
    using assms(1) by (force simp: renamed_def)
  from clean_raises_on_text[OF this assms(2-4)] show "\<exists>e. clean L df rm mh = Inl e" .
next
  have t: "lower (strip ''Fare_Amount'') = ''fare_amount''" by code_simp
  have r: "renamed remap fare_text_raw = [(''fare_amount'', \<lparr>dtype = Object, cells = [S ''12.5'', NA]\<rparr>)]"
    by code_simp
  have k: "map_of must_haves ''fare_amount'' = Some Float32" by code_simp
  show "clean L fare_text_raw remap must_haves = Inl AttributeError"
    by (simp add: clean_alt r columns_def clean_body_def k column_dtype_def bnd_def
          update_column_def getitem_def str_fillna_def)
qed

theorem clean_text_column_raises_witness:
  "(''Fare_Amount'', \<lparr>dtype = Object, cells = [S ''12.5'', NA]\<rparr>) \<in> set fare_text_raw
   \<and> map_of must_haves (canonical_name remap ''Fare_Amount'') \<noteq> None
   \<and> canonical_name remap ''Fare_Amount'' \<notin> set [''pickup_datetime'', ''dropoff_datetime'']
   \<and> (\<exists>e. clean reference_lib fare_text_raw remap must_haves = Inl e)
   \<and> clean reference_lib fare_text_raw remap must_haves = Inl AttributeError"
  using clean_text_column_raises[OF fare_text_raw_facts, of reference_lib] fare_text_raw_facts
  by blast

text \<open>
  The sample frame \<open>sample_trips\<close>, on which the later stages are illustrated, is what
  \<open>clean\<close> makes of \<open>trips_raw\<close>; it has the canonical schema.
\<close>

lemma sample_trips_from_clean:
  "clean reference_lib trips_raw remap must_haves = Inr sample_trips" "normalized sample_trips"
  by code_simp+
section \<open>Properties of the outlier filter\<close>

subsection \<open>Selecting rows\<close>

lemma keep_simps [simp]:
  "keep [] xs = []"
  "keep sel [] = []"
  "keep (b # sel) (x # xs) = (if b then x # keep sel xs else keep sel xs)"
  by (simp_all add: keep_def)

lemma keep_map: "keep sel (map f xs) = map f (keep sel xs)"
proof (induction sel arbitrary: xs)
  case Nil
  then show ?case by simp
next
  case (Cons b sel)
  then show ?case by (cases xs) simp_all
qed

lemma keep_map2: "map2 (\<and>) (keep sel xs) (keep sel ys) = keep sel (map2 (\<and>) xs ys)"
proof (induction sel arbitrary: xs ys)
  case Nil
  then show ?case by simp
next
  case (Cons b sel)
  show ?case
  proof (cases xs)
    case Nil
    then show ?thesis by simp
  next
    case xs: (Cons x xs')
    show ?thesis
    proof (cases ys)
      case Nil
      then show ?thesis by simp
    next
      case ys: (Cons y ys')
      show ?thesis using Cons.IH[of xs' ys'] by (simp add: xs ys)
    qed
  qed
qed

text \<open>Rows that were kept are kept again when the selection is evaluated on the result.\<close>

lemma keep_keep: "keep (keep sel sel) (keep sel xs) = keep sel xs"
proof (induction sel arbitrary: xs)
  case Nil
  then show ?case by simp
next
  case (Cons b sel)
  then show ?case by (cases xs) simp_all
qed

lemma keep_nth:
  "keep (map P [0..<length xs]) xs = map (\<lambda>i. xs ! i) (filter P [0..<length xs])"
proof (induction xs rule: rev_induct)
  case Nil
  then show ?case by simp
next
  case (snoc x xs)
  have z: "zip (map P [0..<length xs] @ [P (length xs)]) (xs @ [x])
             = zip (map P [0..<length xs]) xs @ [(P (length xs), x)]"
    by (subst zip_append) simp_all
  have k: "keep (map P [0..<length (xs @ [x])]) (xs @ [x])
             = keep (map P [0..<length xs]) xs @ (if P (length xs) then [x] else [])"
    by (simp add: keep_def z)
  have n: "map (\<lambda>i. (xs @ [x]) ! i) (filter P [0..<length xs])
             = map (\<lambda>i. xs ! i) (filter P [0..<length xs])"
    by (rule map_cong) (auto simp: nth_append)
  show ?case unfolding k snoc.IH by (simp add: n)
qed

lemma take_rows_twice: "take_rows (keep sel sel) (take_rows sel df) = take_rows sel df"
  by (induction df) (auto simp: take_rows_def keep_keep)

lemma getitem_take_rows:
  "getitem (take_rows sel df) col =
     (case getitem df col of Inl e \<Rightarrow> Inl e | Inr c \<Rightarrow> Inr (c\<lparr>cells := keep sel (cells c)\<rparr>))"
proof -
  have "map_of (take_rows sel df) col = map_option (\<lambda>c. c\<lparr>cells := keep sel (cells c)\<rparr>) (map_of df col)"
    unfolding take_rows_def by (simp add: map_of_map)
  then show ?thesis by (simp add: getitem_def split: option.splits)
qed

lemma compare_column_keep:
  "compare_column p (c\<lparr>cells := keep sel (cells c)\<rparr>) =
     (case compare_column p c of Inl e \<Rightarrow> Inl e | Inr xs \<Rightarrow> Inr (keep sel xs))"
  by (simp add: compare_column_def keep_map)

lemma eval_expr_take_rows:
  "eval_expr (take_rows sel df) e =
     (case eval_expr df e of Inl er \<Rightarrow> Inl er | Inr xs \<Rightarrow> Inr (keep sel xs))"
proof (induction e)
  case (Gt col k)
  then show ?case by (simp add: getitem_take_rows compare_column_keep split: sum.splits)
next
  case (Lt col k)
  then show ?case by (simp add: getitem_take_rows compare_column_keep split: sum.splits)
next
  case (And a b)
  then show ?case by (simp add: keep_map2 split: sum.splits)
qed

lemma query_again:
  assumes "query df e = Inr df'"
  shows "query df' e = Inr df'"
proof -
  from assms obtain sel where sel: "eval_expr df e = Inr sel" and df': "df' = take_rows sel df"
    by (auto simp: query_def bnd_def split: sum.splits)
  have "eval_expr df' e = Inr (keep sel sel)"
    by (simp add: df' eval_expr_take_rows sel)
  then show ?thesis by (simp add: query_def bnd_def df' take_rows_twice)
qed

text \<open>
  Claim C7: applying the outlier filter to its own result changes nothing, so filtering
  twice is filtering once; when the first application raises, so does the composition.
\<close>

theorem outlier_filter_idempotent:
  "bnd (outlier_filter df) outlier_filter = outlier_filter df
   \<and> (outlier_filter df = Inr df' \<longrightarrow> outlier_filter df' = Inr df')"
proof -
  have again: "outlier_filter x = Inr y \<Longrightarrow> outlier_filter y = Inr y" for x y
    by (auto simp: outlier_filter_def dest: query_again split: option.splits)
  have "bnd (outlier_filter df) outlier_filter = outlier_filter df"
    by (cases "outlier_filter df") (simp_all add: bnd_def again)
  then show ?thesis using again by blast
qed

lemma sample_filter_eq: "outlier_filter sample_trips = Inr sample_filtered"
  by code_simp

theorem outlier_filter_idempotent_witness:
  "outlier_filter sample_trips = Inr sample_filtered \<and> outlier_filter sample_filtered = Inr sample_filtered"
  using outlier_filter_idempotent[of sample_trips sample_filtered] sample_filter_eq by simp

subsection \<open>The rows that are kept\<close>

lemma normalized_column:
  assumes "normalized df" and "(col, t) \<in> set must_haves"
  shows "\<exists>c. map_of df col = Some c \<and> dtype c = t \<and> length (cells c) = nrows df
             \<and> list_all (cell_ok t) (cells c)"
proof -
  have "(col, t) \<in> set (map (\<lambda>(n, c). (n, dtype c)) df)"
    using assms by (simp add: normalized_def)
  then obtain c where c: "(col, c) \<in> set df" "dtype c = t" by auto
  have "distinct (map fst df)" using assms(1) by (simp add: normalized_def columns_def)
  then have "map_of df col = Some c" using c(1) by simp
  moreover have "length (cells c) = nrows df \<and> list_all (cell_ok (dtype c)) (cells c)"
    using assms(1) c(1) by (auto simp: normalized_def list_all_iff)
  ultimately show ?thesis using c(2) by auto
qed

lemma map2_and_same: "map2 (\<and>) (map f xs) (map g xs) = map (\<lambda>x. f x \<and> g x) xs"
  by (induction xs) auto

lemma fragment_nth:
  assumes "map_of df col = Some c" and "numeric_dtype (dtype c)" and "length (cells c) = n"
  shows "eval_expr df (And (Gt col lo) (Lt col hi))
           = Inr (map (\<lambda>i. case row_value df col i of None \<Rightarrow> False
                             | Some v \<Rightarrow> of_int lo < v \<and> v < of_int hi) [0..<n])"
proof -
  have g: "getitem df col = Inr c" using assms(1) by (simp add: getitem_def)
  have m: "map f (cells c) = map (\<lambda>i. f (cells c ! i)) [0..<n]" for f :: "cell \<Rightarrow> bool"
    using assms(3) by (simp add: list_eq_iff_nth_eq)
  have r: "row_value df col i = cell_num (cells c ! i)" for i
    using assms(1) by (simp add: row_value_def)
  have "map2 (\<and>) (map (\<lambda>i. case cell_num (cells c ! i) of None \<Rightarrow> False | Some v \<Rightarrow> of_int lo < v) [0..<n])
                   (map (\<lambda>i. case cell_num (cells c ! i) of None \<Rightarrow> False | Some v \<Rightarrow> v < of_int hi) [0..<n])
        = map (\<lambda>i. case cell_num (cells c ! i) of None \<Rightarrow> False | Some v \<Rightarrow> of_int lo < v \<and> v < of_int hi) [0..<n]"
    unfolding map2_and_same by (rule map_cong[OF refl]) (simp split: option.splits)
  then show ?thesis
    using assms(2) by (simp add: g compare_column_def m r)
qed

lemma eval_And:
  assumes "eval_expr df a = Inr (map p [0..<n])" and "eval_expr df b = Inr (map q [0..<n])"
  shows "eval_expr df (And a b) = Inr (map (\<lambda>i. p i \<and> q i) [0..<n])"
  using assms by (simp add: map2_and_same)

lemma outlier_mask:
  assumes "normalized df"
  shows "eval_expr df (the (join_and query_frags)) = Inr (map (within_bounds df) [0..<nrows df])"
proof -
  have col: "\<exists>c. map_of df col = Some c \<and> numeric_dtype (dtype c) \<and> length (cells c) = nrows df"
    if "(col, t) \<in> set must_haves" "numeric_dtype t" for col t
    using normalized_column[OF assms that(1)] that(2) by auto
  have mh: "(''fare_amount'', Float32) \<in> set must_haves" "(''passenger_count'', Int32) \<in> set must_haves"
    "(''pickup_longitude'', Float32) \<in> set must_haves" "(''dropoff_longitude'', Float32) \<in> set must_haves"
    "(''pickup_latitude'', Float32) \<in> set must_haves" "(''dropoff_latitude'', Float32) \<in> set must_haves"
    by (simp_all add: must_haves_def)
  have nt: "numeric_dtype Float32" "numeric_dtype Int32" by (simp_all add: numeric_dtype_def)
  obtain c1 where c1: "map_of df ''fare_amount'' = Some c1" "numeric_dtype (dtype c1)" "length (cells c1) = nrows df"
    using col[OF mh(1) nt(1)] by auto
  obtain c2 where c2: "map_of df ''passenger_count'' = Some c2" "numeric_dtype (dtype c2)" "length (cells c2) = nrows df"
    using col[OF mh(2) nt(2)] by auto
  obtain c3 where c3: "map_of df ''pickup_longitude'' = Some c3" "numeric_dtype (dtype c3)" "length (cells c3) = nrows df"
    using col[OF mh(3) nt(1)] by auto
  obtain c4 where c4: "map_of df ''dropoff_longitude'' = Some c4" "numeric_dtype (dtype c4)" "length (cells c4) = nrows df"
    using col[OF mh(4) nt(1)] by auto
  obtain c5 where c5: "map_of df ''pickup_latitude'' = Some c5" "numeric_dtype (dtype c5)" "length (cells c5) = nrows df"
    using col[OF mh(5) nt(1)] by auto
  obtain c6 where c6: "map_of df ''dropoff_latitude'' = Some c6" "numeric_dtype (dtype c6)" "length (cells c6) = nrows df"
    using col[OF mh(6) nt(1)] by auto
  note frag = fragment_nth[OF c1] fragment_nth[OF c2] fragment_nth[OF c3]
    fragment_nth[OF c4] fragment_nth[OF c5] fragment_nth[OF c6]
  note a1 = eval_And[OF frag(1) frag(2)]
  note a2 = eval_And[OF a1 frag(3)]
  note a3 = eval_And[OF a2 frag(4)]
  note a4 = eval_And[OF a3 frag(5)]
  note a5 = eval_And[OF a4 frag(6)]
  have j: "the (join_and query_frags) =
             And (And (And (And (And
               (And (Gt ''fare_amount'' 0) (Lt ''fare_amount'' 500))
               (And (Gt ''passenger_count'' 0) (Lt ''passenger_count'' 6)))
               (And (Gt ''pickup_longitude'' (- 75)) (Lt ''pickup_longitude'' (- 73))))
               (And (Gt ''dropoff_longitude'' (- 75)) (Lt ''dropoff_longitude'' (- 73))))
               (And (Gt ''pickup_latitude'' 40) (Lt ''pickup_latitude'' 42)))
               (And (Gt ''dropoff_latitude'' 40) (Lt ''dropoff_latitude'' 42))"
    by (simp add: query_frags_def)
  have w: "within_bounds df i =
             ((((((case row_value df ''fare_amount'' i of None \<Rightarrow> False
                    | Some v \<Rightarrow> of_int 0 < v \<and> v < of_int 500)
              \<and> (case row_value df ''passenger_count'' i of None \<Rightarrow> False
                    | Some v \<Rightarrow> of_int 0 < v \<and> v < of_int 6))
              \<and> (case row_value df ''pickup_longitude'' i of None \<Rightarrow> False
                    | Some v \<Rightarrow> of_int (- 75) < v \<and> v < of_int (- 73)))
              \<and> (case row_value df ''dropoff_longitude'' i of None \<Rightarrow> False
                    | Some v \<Rightarrow> of_int (- 75) < v \<and> v < of_int (- 73)))
              \<and> (case row_value df ''pickup_latitude'' i of None \<Rightarrow> False
                    | Some v \<Rightarrow> of_int 40 < v \<and> v < of_int 42))
              \<and> (case row_value df ''dropoff_latitude'' i of None \<Rightarrow> False
                    | Some v \<Rightarrow> of_int 40 < v \<and> v < of_int 42))" for i
    by (simp add: within_bounds_def bounds_def cong: option.case_cong)
  show ?thesis unfolding j w by (rule a5)
qed

lemma take_rows_nth:
  assumes "\<forall>(n, c)\<in>set df. length (cells c) = k"
  shows "take_rows (map P [0..<k]) df =
           map (\<lambda>(n, c). (n, c\<lparr>cells := map (\<lambda>i. cells c ! i) (filter P [0..<k])\<rparr>)) df"
  unfolding take_rows_def
proof (rule map_cong[OF refl])
  fix x assume x: "x \<in> set df"
  obtain n c where nc: "x = (n, c)" by (cases x)
  have "length (cells c) = k" using assms x nc by auto
  then have "keep (map P [0..<k]) (cells c) = map (\<lambda>i. cells c ! i) (filter P [0..<k])"
    using keep_nth[of P "cells c"] by simp
  then show "(case x of (n, c) \<Rightarrow> (n, c\<lparr>cells := keep (map P [0..<k]) (cells c)\<rparr>))
           = (case x of (n, c) \<Rightarrow> (n, c\<lparr>cells := map (\<lambda>i. cells c ! i) (filter P [0..<k])\<rparr>))"
    by (simp add: nc)
qed

lemma sample_trips_normalized: "normalized sample_trips"
  by (rule sample_trips_from_clean(2))

text \<open>
  Claim C4: on a frame with the canonical schema the outlier filter returns, and its result
  holds, in every column and in the original order, exactly the rows that satisfy all six
  range predicates with exclusive bounds; a row failing any predicate is gone from every
  column. A fare of 501 fails the first predicate; a fare of 499.99 with the other five
  values in range passes.
\<close>

theorem outlier_filter_keeps_rows_within_bounds:
  assumes "normalized df"
  shows "outlier_filter df =
           Inr (map (\<lambda>(n, c). (n, c\<lparr>cells := map (\<lambda>i. cells c ! i)
                                              (filter (within_bounds df) [0..<nrows df])\<rparr>)) df)
       \<and> (row_value df ''fare_amount'' i = Some 501 \<longrightarrow> \<not> within_bounds df i)
       \<and> (row_value df ''fare_amount'' i = Some (49999 / 100)
            \<and> row_value df ''passenger_count'' i \<in> Some ` {0<..<6}
            \<and> row_value df ''pickup_longitude'' i \<in> Some ` {- 75<..<- 73}
            \<and> row_value df ''dropoff_longitude'' i \<in> Some ` {- 75<..<- 73}
            \<and> row_value df ''pickup_latitude'' i \<in> Some ` {40<..<42}
            \<and> row_value df ''dropoff_latitude'' i \<in> Some ` {40<..<42}
          \<longrightarrow> within_bounds df i)"
proof -
  have len: "\<forall>(n, c)\<in>set df. length (cells c) = nrows df"
    using assms by (auto simp: normalized_def list_all_iff)
  have "outlier_filter df = Inr (take_rows (map (within_bounds df) [0..<nrows df]) df)"
    using outlier_mask[OF assms] by (simp add: outlier_filter_def query_def bnd_def query_frags_def)
  then have 1: "outlier_filter df =
           Inr (map (\<lambda>(n, c). (n, c\<lparr>cells := map (\<lambda>i. cells c ! i)
                                              (filter (within_bounds df) [0..<nrows df])\<rparr>)) df)"
    by (simp add: take_rows_nth[OF len])
  have 2: "row_value df ''fare_amount'' i = Some 501 \<longrightarrow> \<not> within_bounds df i"
    by (simp add: within_bounds_def bounds_def)
  have 3: "row_value df ''fare_amount'' i = Some (49999 / 100)
            \<and> row_value df ''passenger_count'' i \<in> Some ` {0<..<6}
            \<and> row_value df ''pickup_longitude'' i \<in> Some ` {- 75<..<- 73}
            \<and> row_value df ''dropoff_longitude'' i \<in> Some ` {- 75<..<- 73}
            \<and> row_value df ''pickup_latitude'' i \<in> Some ` {40<..<42}
            \<and> row_value df ''dropoff_latitude'' i \<in> Some ` {40<..<42}
          \<longrightarrow> within_bounds df i"
    by (auto simp: within_bounds_def bounds_def)
  show ?thesis using 1 2 3 by blast
qed

theorem outlier_filter_keeps_rows_within_bounds_witness:
  "normalized sample_trips
   \<and> outlier_filter sample_trips =
       Inr (map (\<lambda>(n, c). (n, c\<lparr>cells := map (\<lambda>i. cells c ! i)
                                (filter (within_bounds sample_trips) [0..<nrows sample_trips])\<rparr>))
              sample_trips)
   \<and> filter (within_bounds sample_trips) [0..<nrows sample_trips] = [0]
   \<and> row_value sample_trips ''fare_amount'' 0 = Some (49999 / 100)
   \<and> row_value sample_trips ''fare_amount'' 1 = Some 501"
proof -
  have "filter (within_bounds sample_trips) [0..<nrows sample_trips] = [0]"
    "row_value sample_trips ''fare_amount'' 0 = Some (49999 / 100)"
    "row_value sample_trips ''fare_amount'' 1 = Some 501"
    by code_simp+
  then show ?thesis
    using outlier_filter_keeps_rows_within_bounds[OF sample_trips_normalized] sample_trips_normalized
    by simp
qed

section \<open>Properties of the haversine kernel\<close>

subsection \<open>Bounds for \<open>\<pi>\<close>\<close>

text \<open>
  The alternating series of the arc tangent encloses its sum between consecutive partial
  sums; with Machin's formula this gives \<open>\<pi>\<close> to five decimal places.
\<close>

lemma arctan_enclosure:
  fixes x :: real
  assumes "0 < x" and "x \<le> 1"
  shows "(\<Sum>i<2 * n. (- 1) ^ i * (1 / real (i * 2 + 1) * x ^ (i * 2 + 1))) \<le> arctan x"
    and "arctan x \<le> (\<Sum>i<2 * n + 1. (- 1) ^ i * (1 / real (i * 2 + 1) * x ^ (i * 2 + 1)))"
proof -
  have ax: "\<bar>x\<bar> \<le> 1" using assms by simp
  let ?a = "\<lambda>n. 1 / real (n * 2 + 1) * x ^ (n * 2 + 1)"
  have pos: "0 < ?a 0" using assms by simp
  from summable_Leibniz(2)[OF zeroseq_arctan_series[OF ax] monoseq_arctan_series[OF ax]] pos
  have "(\<Sum>i. (- 1) ^ i * ?a i) \<in> {\<Sum>i<2 * n. (- 1) ^ i * ?a i .. \<Sum>i<2 * n + 1. (- 1) ^ i * ?a i}"
    by blast
  then show "(\<Sum>i<2 * n. (- 1) ^ i * ?a i) \<le> arctan x"
    and "arctan x \<le> (\<Sum>i<2 * n + 1. (- 1) ^ i * ?a i)"
    unfolding arctan_series[OF ax] by simp_all
qed

lemma arctan_fifth_bounds:
  "(1973955 / 10000000 :: real) \<le> arctan (1 / 5)" "arctan (1 / 5) \<le> (1973956 / 10000000 :: real)"
proof -
  have lo: "(\<Sum>i<2 * 2. (- 1) ^ i * (1 / real (i * 2 + 1) * (1 / 5 :: real) ^ (i * 2 + 1))) \<le> arctan (1 / 5)"
    by (rule arctan_enclosure(1)) simp_all
  have hi: "arctan (1 / 5) \<le> (\<Sum>i<2 * 2 + 1. (- 1) ^ i * (1 / real (i * 2 + 1) * (1 / 5 :: real) ^ (i * 2 + 1)))"
    by (rule arctan_enclosure(2)) simp_all
  have s4: "(\<Sum>i<2 * 2. (- 1) ^ i * (1 / real (i * 2 + 1) * (1 / 5 :: real) ^ (i * 2 + 1))) = 323852 / 1640625"
    by (simp add: eval_nat_numeral)
  have s5: "(\<Sum>i<2 * 2 + 1. (- 1) ^ i * (1 / real (i * 2 + 1) * (1 / 5 :: real) ^ (i * 2 + 1))) = 24288907 / 123046875"
    by (simp add: eval_nat_numeral)
  show "(1973955 / 10000000 :: real) \<le> arctan (1 / 5)"
    using lo unfolding s4 by linarith
  show "arctan (1 / 5) \<le> (1973956 / 10000000 :: real)"
    using hi unfolding s5 by linarith
qed

lemma arctan_239_bounds:
  "(418407 / 100000000 :: real) \<le> arctan (1 / 239)" "arctan (1 / 239) \<le> (418411 / 100000000 :: real)"
proof -
  have lo: "(\<Sum>i<2 * 1. (- 1) ^ i * (1 / real (i * 2 + 1) * (1 / 239 :: real) ^ (i * 2 + 1))) \<le> arctan (1 / 239)"
    by (rule arctan_enclosure(1)) simp_all
  have hi: "arctan (1 / 239) \<le> (\<Sum>i<2 * 0 + 1. (- 1) ^ i * (1 / real (i * 2 + 1) * (1 / 239 :: real) ^ (i * 2 + 1)))"
    by (rule arctan_enclosure(2)) simp_all
  have s2: "(\<Sum>i<2 * 1. (- 1) ^ i * (1 / real (i * 2 + 1) * (1 / 239 :: real) ^ (i * 2 + 1))) = 171362 / 40955757"
    by (simp add: eval_nat_numeral)
  have s1: "(\<Sum>i<2 * 0 + 1. (- 1) ^ i * (1 / real (i * 2 + 1) * (1 / 239 :: real) ^ (i * 2 + 1))) = 1 / 239"
    by (simp add: eval_nat_numeral)
  show "(418407 / 100000000 :: real) \<le> arctan (1 / 239)"
    using lo unfolding s2 by linarith
  show "arctan (1 / 239) \<le> (418411 / 100000000 :: real)"
    using hi unfolding s1 by linarith
qed

lemma pi_bounds: "(314159 / 100000 :: real) < pi" "pi < (314160 / 100000 :: real)"
proof -
  have m: "pi = 16 * arctan (1 / 5) - 4 * arctan (1 / 239)"
    using machin by simp
  show "(314159 / 100000 :: real) < pi"
    using arctan_fifth_bounds(1) arctan_239_bounds(2) unfolding m by linarith
  show "pi < (314160 / 100000 :: real)"
    using arctan_fifth_bounds(2) arctan_239_bounds(1) unfolding m by linarith
qed

subsection \<open>The kernel and the formula\<close>

lemma kernel_is_spec:
  "haversine_distance_kernel lat1 lon1 lat2 lon2 = haversine_spec lat1 lon1 lat2 lon2"
proof -
  have r: "pi / 180 * a = radians a" for a
    by (simp add: radians_def)
  show ?thesis
    unfolding haversine_distance_kernel_def haversine_spec_def haversine_a_def Let_def r
    by simp
qed

lemma same_point: "haversine_distance_kernel lat lon lat lon = 0"
  by (simp add: haversine_distance_kernel_def Let_def)

lemma quarter_circle: "haversine_distance_kernel 0 0 0 90 = 6371 * pi / 2"
proof -
  have s: "(sin (pi / 4))\<^sup>2 = 1 / 2"
    by (simp add: sin_45 power_divide)
  have q: "sqrt (1 / 2) = sin (pi / 4)"
    by (simp add: sin_45 real_sqrt_divide real_div_sqrt)
  have a: "arcsin (sin (pi / 4)) = pi / 4"
    by (rule arcsin_sin) simp_all
  have "haversine_distance_kernel 0 0 0 90 = 2 * arcsin (sqrt ((sin (pi / 4))\<^sup>2)) * 6371"
    by (simp add: haversine_distance_kernel_def Let_def)
  also have "\<dots> = 2 * (pi / 4) * 6371"
    unfolding s q a ..
  finally show ?thesis by simp
qed

text \<open>
  Claim C5: over the reals, the value the kernel computes for a pair of points is the
  haversine formula, with both points converted from degrees to radians,
  \<open>a = sin\<^sup>2(\<Delta>lat/2) + cos(lat1) cos(lat2) sin\<^sup>2(\<Delta>lon/2)\<close> and the distance
  \<open>2 R asin(\<surd>a)\<close> for \<open>R = 6371\<close>; two identical points are at distance 0; and the
  points \<open>(0, 0)\<close> and \<open>(0, 90)\<close> are a quarter of the great circle apart, \<open>6371 \<pi> / 2\<close>,
  which is within 0.1 of 10007.5.
\<close>

theorem haversine_kernel_is_formula:
  "haversine_distance_kernel lat1 lon1 lat2 lon2 = haversine_spec lat1 lon1 lat2 lon2
   \<and> haversine_spec lat1 lon1 lat2 lon2
       = 2 * 6371 * arcsin (sqrt ((sin ((radians lat2 - radians lat1) / 2))\<^sup>2
           + cos (radians lat1) * cos (radians lat2) * (sin ((radians lon2 - radians lon1) / 2))\<^sup>2))
   \<and> haversine_distance_kernel lat1 lon1 lat1 lon1 = 0
   \<and> haversine_distance_kernel (40.7128) (- 74.0060) (40.7128) (- 74.0060) = 0
   \<and> haversine_distance_kernel 0 0 0 90 = 6371 * pi / 2
   \<and> \<bar>haversine_distance_kernel 0 0 0 90 - 10007.5\<bar> < 0.1"
proof -
  have "\<bar>6371 * pi / 2 - 10007.5\<bar> < (0.1 :: real)"
    using pi_bounds by linarith
  then show ?thesis
    by (simp add: kernel_is_spec[symmetric] same_point quarter_circle)
       (simp add: kernel_is_spec haversine_spec_def haversine_a_def)
qed

section \<open>Properties of \<open>add_features\<close>\<close>

subsection \<open>The column operations on well-typed columns\<close>

lemma those_map_all: "(\<forall>x\<in>set xs. g x = Some (h x)) \<Longrightarrow> those (map g xs) = Some (map h xs)"
  by (induction xs) auto

lemma datetime_cells:
  assumes "contains ''datetime'' (dtype_str d)" and "cell_ok d x"
  shows "x = NA \<or> (\<exists>v. x = T v)"
  using assms by (cases x; cases d) (simp_all add: cell_ok_def)

lemma float32_cells:
  assumes "cell_ok Float32 x"
  shows "x = NA \<or> (\<exists>r. x = F r)"
  using assms by (cases x) (simp_all add: cell_ok_def)

lemma dt_field_returns:
  assumes "contains ''datetime'' (dtype_str (dtype c))" and "list_all (cell_ok (dtype c)) (cells c)"
  shows "dt_field f c =
           Inr \<lparr>dtype = Int16,
                cells = map (\<lambda>x. case x of T v \<Rightarrow> I (f (to_ms (dtype c) v)) | _ \<Rightarrow> NA) (cells c)\<rparr>"
proof -
  have "\<forall>x\<in>set (cells c).
          (case x of NA \<Rightarrow> Some NA | T v \<Rightarrow> Some (I (f (to_ms (dtype c) v))) | _ \<Rightarrow> None)
          = Some (case x of T v \<Rightarrow> I (f (to_ms (dtype c) v)) | _ \<Rightarrow> NA)"
    using assms datetime_cells[OF assms(1)] by (fastforce simp: list_all_iff)
  from those_map_all[OF this] show ?thesis using assms(1) by (simp add: dt_field_def)
qed

lemma astype_int32_returns:
  assumes "contains ''datetime'' (dtype_str (dtype c))" and "list_all (cell_ok (dtype c)) (cells c)"
  shows "astype L Int32 c =
           Inr \<lparr>dtype = Int32, cells = map (\<lambda>x. case x of T v \<Rightarrow> I (wrap32 v) | _ \<Rightarrow> NA) (cells c)\<rparr>"
proof -
  have "\<forall>x\<in>set (cells c). cast_cell L Int32 x = Some (case x of T v \<Rightarrow> I (wrap32 v) | _ \<Rightarrow> NA)"
    using assms datetime_cells[OF assms(1)] by (fastforce simp: list_all_iff cast_cell_def)
  from those_map_all[OF this] show ?thesis by (simp add: astype_def)
qed

text \<open>The difference of two timestamps after the casts, in one cell.\<close>

lemma sub_int32_timestamps:
  "sub_int32 (case x of T v \<Rightarrow> I (wrap32 v) | _ \<Rightarrow> NA) (case y of T v \<Rightarrow> I (wrap32 v) | _ \<Rightarrow> NA)
     = Some (case (x, y) of (T d, T p) \<Rightarrow> I (wrap32 (d - p)) | _ \<Rightarrow> NA)"
proof -
  have w: "sint ((word_of_int (wrap32 d) :: 32 word) - word_of_int (wrap32 p)) = wrap32 (d - p)" for d p
    by (simp add: wrap32_def)
  show ?thesis by (cases x; cases y) (simp_all add: sub_int32_def w)
qed

lemma sub_columns_returns:
  assumes "length xs = length ys"
  shows "sub_columns \<lparr>dtype = Int32, cells = map (\<lambda>x. case x of T v \<Rightarrow> I (wrap32 v) | _ \<Rightarrow> NA) xs\<rparr>
                     \<lparr>dtype = Int32, cells = map (\<lambda>x. case x of T v \<Rightarrow> I (wrap32 v) | _ \<Rightarrow> NA) ys\<rparr>
           = Inr \<lparr>dtype = Int32,
                  cells = map2 (\<lambda>x y. case (x, y) of (T d, T p) \<Rightarrow> I (wrap32 (d - p)) | _ \<Rightarrow> NA) xs ys\<rparr>"
proof -
  have "those (map2 sub_int32 (map (\<lambda>x. case x of T v \<Rightarrow> I (wrap32 v) | _ \<Rightarrow> NA) xs)
                              (map (\<lambda>x. case x of T v \<Rightarrow> I (wrap32 v) | _ \<Rightarrow> NA) ys))
          = Some (map2 (\<lambda>x y. case (x, y) of (T d, T p) \<Rightarrow> I (wrap32 (d - p)) | _ \<Rightarrow> NA) xs ys)"
    using assms by (induction xs ys rule: list_induct2) (simp_all add: sub_int32_timestamps)
  then show ?thesis using assms by (simp add: sub_columns_def)
qed

lemma bucket_returns:
  assumes "dtype c = Float32" and "list_all (cell_ok Float32) (cells c)"
  shows "bnd (floordiv_scalar k c) (mul_scalar k)
           = Inr \<lparr>dtype = Float32,
                  cells = map (\<lambda>x. case x of F r \<Rightarrow> F (of_int \<lfloor>r / k\<rfloor> * k) | _ \<Rightarrow> NA) (cells c)\<rparr>"
proof -
  let ?g1 = "\<lambda>x. case x of NA \<Rightarrow> Some NA | _ \<Rightarrow> map_option (\<lambda>v. F (of_int \<lfloor>v / k\<rfloor>)) (cell_num x)"
  let ?h1 = "\<lambda>x. case x of F r \<Rightarrow> F (of_int \<lfloor>r / k\<rfloor>) | _ \<Rightarrow> NA"
  let ?g2 = "\<lambda>x. case x of NA \<Rightarrow> Some NA | _ \<Rightarrow> map_option (\<lambda>v. F (v * k)) (cell_num x)"
  let ?h2 = "\<lambda>x. case x of F r \<Rightarrow> F (of_int \<lfloor>r / k\<rfloor> * k) | _ \<Rightarrow> NA"
  have nd: "numeric_dtype Float32" by (simp add: numeric_dtype_def)
  have 1: "\<forall>x\<in>set (cells c). ?g1 x = Some (?h1 x)"
    using assms(2) float32_cells by (fastforce simp: list_all_iff cell_num_def)
  have 2: "\<forall>x\<in>set (cells c). ?g2 (?h1 x) = Some (?h2 x)"
    using assms(2) float32_cells by (fastforce simp: list_all_iff cell_num_def)
  have f: "floordiv_scalar k c = Inr \<lparr>dtype = Float32, cells = map ?h1 (cells c)\<rparr>"
    using those_map_all[OF 1] assms(1) nd by (simp add: floordiv_scalar_def map_numeric_def)
  have "those (map ?g2 (map ?h1 (cells c))) = Some (map ?h2 (cells c))"
    using those_map_all[of "cells c" "\<lambda>x. ?g2 (?h1 x)" ?h2, OF 2] by (simp add: comp_def)
  then have m: "mul_scalar k \<lparr>dtype = Float32, cells = map ?h1 (cells c)\<rparr>
                  = Inr \<lparr>dtype = Float32, cells = map ?h2 (cells c)\<rparr>"
    using nd by (simp add: mul_scalar_def map_numeric_def)
  show ?thesis by (simp add: bnd_def f m)
qed

text \<open>A row that the kernels read holds one value from each input column.\<close>

lemma rows_of_member:
  assumes "row \<in> set (rows_of css)"
  shows "length row = length css \<and> (\<forall>k<length css. row ! k \<in> set (css ! k))"
  using assms
proof (induction css arbitrary: row rule: rows_of.induct)
  case 1
  then show ?case by simp
next
  case (2 c)
  then show ?case by auto
next
  case (3 c v va)
  from "3.prems" obtain x r where row: "row = x # r" and x: "x \<in> set c" and r: "r \<in> set (rows_of (v # va))"
    by (auto simp: set_zip in_set_conv_nth)
  from "3.IH"[OF r] have ih: "length r = length (v # va)" "\<forall>k<length (v # va). r ! k \<in> set ((v # va) ! k)"
    by auto
  show ?case
  proof (intro conjI allI impI)
    show "length row = length (c # v # va)" using ih(1) row by simp
  next
    fix k assume "k < length (c # v # va)"
    then show "row ! k \<in> set ((c # v # va) ! k)"
      using ih x row by (cases k) auto
  qed
qed


lemma haversine_row_returns:
  assumes "row \<in> set (rows_of [a, b, c, d])"
      and "list_all (cell_ok Float32) a" "list_all (cell_ok Float32) b"
      and "list_all (cell_ok Float32) c" "list_all (cell_ok Float32) d"
  shows "\<exists>y. haversine_row L row = Some y \<and> cell_ok Float32 y"
proof -
  from rows_of_member[OF assms(1)]
  have len: "length row = 4" and mem: "\<forall>k<4. row ! k \<in> set ([a, b, c, d] ! k)" by simp_all
  from len obtain x1 x2 x3 x4 where row: "row = [x1, x2, x3, x4]"
    by (auto simp: length_Suc_conv eval_nat_numeral)
  have "x1 \<in> set a" "x2 \<in> set b" "x3 \<in> set c" "x4 \<in> set d"
    using mem[rule_format, of 0] mem[rule_format, of 1] mem[rule_format, of 2] mem[rule_format, of 3]
    by (simp_all add: row)
  then have ok: "cell_ok Float32 x1" "cell_ok Float32 x2" "cell_ok Float32 x3" "cell_ok Float32 x4"
    using assms(2-5) by (auto simp: list_all_iff)
  show ?thesis
    using float32_cells[OF ok(1)] float32_cells[OF ok(2)] float32_cells[OF ok(3)] float32_cells[OF ok(4)]
    by (auto simp: haversine_row_def row cell_num_def cell_ok_def)
qed

lemma day_of_week_row_returns:
  assumes "row \<in> set (rows_of [map (\<lambda>x. case x of T v \<Rightarrow> I (f v) | _ \<Rightarrow> NA) xs,
                                   map (\<lambda>x. case x of T v \<Rightarrow> I (g v) | _ \<Rightarrow> NA) xs,
                                   map (\<lambda>x. case x of T v \<Rightarrow> I (h v) | _ \<Rightarrow> NA) xs])"
  shows "\<exists>y. day_of_week_row row = Some y \<and> cell_ok Float32 y"
proof -
  have int_or_na: "z = NA \<or> (\<exists>i. z = I i)"
    if "z \<in> set (map (\<lambda>x. case x of T v \<Rightarrow> I (k v) | _ \<Rightarrow> NA) xs)" for z k
    using that by (auto split: cell.splits)
  from rows_of_member[OF assms]
  have len: "length row = 3"
    and mem: "\<forall>k<3. row ! k \<in> set ([map (\<lambda>x. case x of T v \<Rightarrow> I (f v) | _ \<Rightarrow> NA) xs,
                                   map (\<lambda>x. case x of T v \<Rightarrow> I (g v) | _ \<Rightarrow> NA) xs,
                                   map (\<lambda>x. case x of T v \<Rightarrow> I (h v) | _ \<Rightarrow> NA) xs] ! k)"
    by simp_all
  from len obtain x1 x2 x3 where row: "row = [x1, x2, x3]"
    by (auto simp: length_Suc_conv eval_nat_numeral)
  have "x1 = NA \<or> (\<exists>i. x1 = I i)" "x2 = NA \<or> (\<exists>i. x2 = I i)" "x3 = NA \<or> (\<exists>i. x3 = I i)"
    using mem[rule_format, of 0] mem[rule_format, of 1] mem[rule_format, of 2]
    by (simp_all add: row int_or_na)
  then show ?thesis
    by (auto simp: day_of_week_row_def row cell_ok_def)
qed

lemma lt_scalar_returns:
  assumes "dtype c = Float32" and "list_all (cell_ok Float32) (cells c)"
  shows "lt_scalar k c =
           Inr \<lparr>dtype = Bool, cells = map (\<lambda>x. case x of F r \<Rightarrow> B (r < k) | _ \<Rightarrow> NA) (cells c)\<rparr>"
proof -
  have "\<forall>x\<in>set (cells c). cell_less_than k x = Some (case x of F r \<Rightarrow> B (r < k) | _ \<Rightarrow> NA)"
    using assms(2) float32_cells by (fastforce simp: list_all_iff cell_less_than_def cell_num_def)
  from those_map_all[OF this] show ?thesis
    using assms(1) by (simp add: lt_scalar_def numeric_dtype_def)
qed

subsection \<open>The frame that \<open>add_features\<close> returns\<close>

lemma normalized_names: "normalized df \<Longrightarrow> set (columns df) = set (map fst must_haves)"
proof -
  assume "normalized df"
  then have "set (map (\<lambda>(n, c). (n, dtype c)) df) = set must_haves"
    by (simp add: normalized_def)
  then have "fst ` set (map (\<lambda>(n, c). (n, dtype c)) df) = fst ` set must_haves" by simp
  then show ?thesis by (simp add: columns_def image_image case_prod_unfold)
qed

lemma bnd_Inr: "bnd (Inr x) f = f x"
  by (simp add: bnd_def)

lemma columns_simps:
  "columns [] = []" "columns ((n, c) # xs) = n # columns xs" "columns (xs @ ys) = columns xs @ columns ys"
  by (simp_all add: columns_def)

lemma getitem_Some: "map_of df n = Some c \<Longrightarrow> getitem df n = Inr c"
  by (simp add: getitem_def)

lemma getitem_append: "map_of df n = Some c \<Longrightarrow> getitem (df @ ys) n = Inr c"
  by (simp add: getitem_def)

lemma setitem_fresh: "n \<notin> set (columns df) \<Longrightarrow> setitem df n c = df @ [(n, c)]"
  by (simp add: setitem_def)

lemma assign_from_fresh:
  assumes "getitem df src = Inr c" and "f c = Inr c'" and "tgt \<notin> set (columns df)"
  shows "assign_from df tgt src f = Inr (df @ [(tgt, c')])"
  using assms by (simp add: assign_from_def bnd_def setitem_fresh)

lemma apply_rows_fresh:
  assumes "get_columns df incols = Inr cs"
      and "those (map kern (rows_of (map cells cs))) = Some out"
      and "outcol \<notin> set (columns df)"
  shows "apply_rows kern incols outcol t df = Inr (df @ [(outcol, \<lparr>dtype = t, cells = out\<rparr>)])"
  using assms by (simp add: apply_rows_def bnd_def setitem_fresh)

lemma rows_of_three_maps:
  "rows_of [map f xs, map g xs, map h xs] = map (\<lambda>x. [f x, g x, h x]) xs"
  by (induction xs) simp_all

lemma day_of_week_rows:
  "those (map day_of_week_row
            (rows_of [map (\<lambda>x. case x of T v \<Rightarrow> I (f v) | _ \<Rightarrow> NA) xs,
                      map (\<lambda>x. case x of T v \<Rightarrow> I (g v) | _ \<Rightarrow> NA) xs,
                      map (\<lambda>x. case x of T v \<Rightarrow> I (h v) | _ \<Rightarrow> NA) xs]))
     = Some (map (\<lambda>x. case x of T v \<Rightarrow> F (of_int (day_of_the_week_kernel (f v) (g v) (h v))) | _ \<Rightarrow> NA) xs)"
proof -
  have "\<forall>x\<in>set xs.
          day_of_week_row [case x of T v \<Rightarrow> I (f v) | _ \<Rightarrow> NA, case x of T v \<Rightarrow> I (g v) | _ \<Rightarrow> NA,
                           case x of T v \<Rightarrow> I (h v) | _ \<Rightarrow> NA]
          = Some (case x of T v \<Rightarrow> F (of_int (day_of_the_week_kernel (f v) (g v) (h v))) | _ \<Rightarrow> NA)"
    by (auto simp: day_of_week_row_def split: cell.splits)
  from those_map_all[OF this]
  have "those (map (\<lambda>x. day_of_week_row [case x of T v \<Rightarrow> I (f v) | _ \<Rightarrow> NA, case x of T v \<Rightarrow> I (g v) | _ \<Rightarrow> NA,
                           case x of T v \<Rightarrow> I (h v) | _ \<Rightarrow> NA]) xs)
          = Some (map (\<lambda>x. case x of T v \<Rightarrow> F (of_int (day_of_the_week_kernel (f v) (g v) (h v))) | _ \<Rightarrow> NA) xs)" .
  then show ?thesis
    unfolding rows_of_three_maps map_map comp_def .
qed

lemma haversine_cells:
  assumes "list_all (cell_ok Float32) a" "list_all (cell_ok Float32) b"
      and "list_all (cell_ok Float32) c" "list_all (cell_ok Float32) d"
  shows "those (map (haversine_row L) (rows_of [a, b, c, d]))
           = Some (map (\<lambda>row. the (haversine_row L row)) (rows_of [a, b, c, d]))
         \<and> list_all (cell_ok Float32) (map (\<lambda>row. the (haversine_row L row)) (rows_of [a, b, c, d]))"
proof -
  have r: "\<forall>row\<in>set (rows_of [a, b, c, d]). \<exists>y. haversine_row L row = Some y \<and> cell_ok Float32 y"
    using haversine_row_returns[OF _ assms] by blast
  then have "\<forall>row\<in>set (rows_of [a, b, c, d]). haversine_row L row = Some (the (haversine_row L row))"
    by fastforce
  from those_map_all[OF this] r show ?thesis
    by (fastforce simp: list_all_iff)
qed

lemma filter_append_fresh:
  assumes "\<forall>(m, x)\<in>set ys. m \<noteq> n"
  shows "filter (\<lambda>(m, x). m \<noteq> n) (xs @ ys) = filter (\<lambda>(m, x). m \<noteq> n) xs @ (ys :: dataframe)"
  using assms by (induction ys) auto

lemma map_of_filter_other:
  "k \<noteq> n \<Longrightarrow> map_of (filter (\<lambda>(m, x). m \<noteq> n) (xs :: dataframe)) k = map_of xs k"
  by (induction xs) auto

text \<open>
  On a frame with the canonical schema \<open>add_features\<close> returns, and this is the frame it
  returns: the columns other than the two timestamps, then the twelve derived columns.
\<close>

lemma add_features_result:
  assumes "normalized df"
  shows "\<exists>P D A1 A2 A3 A4.
           map_of df ''pickup_datetime'' = Some P \<and> map_of df ''dropoff_datetime'' = Some D
         \<and> map_of df ''pickup_latitude'' = Some A1 \<and> map_of df ''pickup_longitude'' = Some A2
         \<and> map_of df ''dropoff_latitude'' = Some A3 \<and> map_of df ''dropoff_longitude'' = Some A4
         \<and> length (cells P) = nrows df \<and> length (cells D) = nrows df
         \<and> add_features L df = Inr (without_timestamps df @ derived L P D A1 A2 A3 A4)"
proof -
  have mh: "(''pickup_datetime'', Datetime64_ms) \<in> set must_haves" "(''dropoff_datetime'', Datetime64_ms) \<in> set must_haves"
    "(''pickup_latitude'', Float32) \<in> set must_haves" "(''pickup_longitude'', Float32) \<in> set must_haves"
    "(''dropoff_latitude'', Float32) \<in> set must_haves" "(''dropoff_longitude'', Float32) \<in> set must_haves"
    by (simp_all add: must_haves_def)
  obtain P where P: "map_of df ''pickup_datetime'' = Some P" "dtype P = Datetime64_ms"
      "length (cells P) = nrows df" "list_all (cell_ok Datetime64_ms) (cells P)"
    using normalized_column[OF assms mh(1)] by auto
  obtain D where D: "map_of df ''dropoff_datetime'' = Some D" "dtype D = Datetime64_ms"
      "length (cells D) = nrows df" "list_all (cell_ok Datetime64_ms) (cells D)"
    using normalized_column[OF assms mh(2)] by auto
  obtain A1 where A1: "map_of df ''pickup_latitude'' = Some A1" "dtype A1 = Float32"
      "length (cells A1) = nrows df" "list_all (cell_ok Float32) (cells A1)"
    using normalized_column[OF assms mh(3)] by auto
  obtain A2 where A2: "map_of df ''pickup_longitude'' = Some A2" "dtype A2 = Float32"
      "length (cells A2) = nrows df" "list_all (cell_ok Float32) (cells A2)"
    using normalized_column[OF assms mh(4)] by auto
  obtain A3 where A3: "map_of df ''dropoff_latitude'' = Some A3" "dtype A3 = Float32"
      "length (cells A3) = nrows df" "list_all (cell_ok Float32) (cells A3)"
    using normalized_column[OF assms mh(5)] by auto
  obtain A4 where A4: "map_of df ''dropoff_longitude'' = Some A4" "dtype A4 = Float32"
      "length (cells A4) = nrows df" "list_all (cell_ok Float32) (cells A4)"
    using normalized_column[OF assms mh(6)] by auto
  have dt: "contains ''datetime'' (dtype_str (dtype P))" "contains ''datetime'' (dtype_str (dtype D))"
    by (simp_all add: P D)
  have okP: "list_all (cell_ok (dtype P)) (cells P)" and okD: "list_all (cell_ok (dtype D)) (cells D)"
    using P D by simp_all
  have ms: "to_ms (dtype P) v = v" for v by (simp add: to_ms_def P)
  have dtf: "dt_field f P = Inr \<lparr>dtype = Int16, cells = map (\<lambda>x. case x of T v \<Rightarrow> I (f v) | _ \<Rightarrow> NA) (cells P)\<rparr>" for f
    using dt_field_returns[OF dt(1) okP, of f] by (simp add: ms cong: cell.case_cong)
  note names = normalized_names[OF assms]

  define hour where "hour = \<lparr>dtype = Int16, cells = map (\<lambda>x. case x of T v \<Rightarrow> I (dt_hour L v) | _ \<Rightarrow> NA) (cells P)\<rparr>"
  define year where "year = \<lparr>dtype = Int16, cells = map (\<lambda>x. case x of T v \<Rightarrow> I (dt_year L v) | _ \<Rightarrow> NA) (cells P)\<rparr>"
  define month where "month = \<lparr>dtype = Int16, cells = map (\<lambda>x. case x of T v \<Rightarrow> I (dt_month L v) | _ \<Rightarrow> NA) (cells P)\<rparr>"
  define day where "day = \<lparr>dtype = Int16, cells = map (\<lambda>x. case x of T v \<Rightarrow> I (dt_day L v) | _ \<Rightarrow> NA) (cells P)\<rparr>"
  define diff where "diff = \<lparr>dtype = Int32,
      cells = map2 (\<lambda>x y. case (x, y) of (T d, T p) \<Rightarrow> I (wrap32 (d - p)) | _ \<Rightarrow> NA) (cells D) (cells P)\<rparr>"
  define bucket where "bucket = (\<lambda>c :: column. \<lparr>dtype = Float32,
      cells = map (\<lambda>x. case x of F r \<Rightarrow> F (of_int \<lfloor>r / (1 / 100)\<rfloor> * (1 / 100)) | _ \<Rightarrow> NA) (cells c)\<rparr>)"
  define hd where "hd = \<lparr>dtype = Float32,
      cells = map (\<lambda>row. the (haversine_row L row)) (rows_of [cells A1, cells A2, cells A3, cells A4])\<rparr>"
  define dw where "dw = \<lparr>dtype = Float32,
      cells = map (\<lambda>x. case x of T v \<Rightarrow> F (of_int (day_of_the_week_kernel (dt_day L v) (dt_month L v) (dt_year L v)))
                         | _ \<Rightarrow> NA) (cells P)\<rparr>"
  define we where "we = \<lparr>dtype = Bool, cells = map (\<lambda>x. case x of F r \<Rightarrow> B (r < 2) | _ \<Rightarrow> NA) (cells dw)\<rparr>"

  define s1 where "s1 = df @ [(''hour'', hour)]"
  define s2 where "s2 = s1 @ [(''year'', year)]"
  define s3 where "s3 = s2 @ [(''month'', month)]"
  define s4 where "s4 = s3 @ [(''day'', day)]"
  define s5 where "s5 = s4 @ [(''diff'', diff)]"
  define s6 where "s6 = s5 @ [(''pickup_latitude_r'', bucket A1)]"
  define s7 where "s7 = s6 @ [(''pickup_longitude_r'', bucket A2)]"
  define s8 where "s8 = s7 @ [(''dropoff_latitude_r'', bucket A3)]"
  define s9 where "s9 = s8 @ [(''dropoff_longitude_r'', bucket A4)]"
  define extras where "extras = [(''hour'', hour), (''year'', year), (''month'', month), (''day'', day),
      (''diff'', diff), (''pickup_latitude_r'', bucket A1), (''pickup_longitude_r'', bucket A2),
      (''dropoff_latitude_r'', bucket A3), (''dropoff_longitude_r'', bucket A4)]"
  define kept where "kept = filter (\<lambda>(n, x). n \<noteq> ''dropoff_datetime'') (filter (\<lambda>(n, x). n \<noteq> ''pickup_datetime'') df)"
  define s11 where "s11 = kept @ extras"
  define s12 where "s12 = s11 @ [(''h_distance'', hd)]"
  define s13 where "s13 = s12 @ [(''day_of_week'', dw)]"
  define s14 where "s14 = s13 @ [(''is_weekend'', we)]"

  have s9: "s9 = df @ extras"
    by (simp add: s9_def s8_def s7_def s6_def s5_def s4_def s3_def s2_def s1_def extras_def)
  have cols: "set (columns s1) = set (columns df) \<union> {''hour''}"
    "set (columns s2) = set (columns df) \<union> {''hour'', ''year''}"
    "set (columns s3) = set (columns df) \<union> {''hour'', ''year'', ''month''}"
    "set (columns s4) = set (columns df) \<union> {''hour'', ''year'', ''month'', ''day''}"
    "set (columns s5) = set (columns df) \<union> {''hour'', ''year'', ''month'', ''day'', ''diff''}"
    "set (columns s6) = set (columns df) \<union> {''hour'', ''year'', ''month'', ''day'', ''diff'', ''pickup_latitude_r''}"
    "set (columns s7) = set (columns df) \<union> {''hour'', ''year'', ''month'', ''day'', ''diff'', ''pickup_latitude_r'',
        ''pickup_longitude_r''}"
    "set (columns s8) = set (columns df) \<union> {''hour'', ''year'', ''month'', ''day'', ''diff'', ''pickup_latitude_r'',
        ''pickup_longitude_r'', ''dropoff_latitude_r''}"
    by (auto simp: columns_def s8_def s7_def s6_def s5_def s4_def s3_def s2_def s1_def)

  have e1: "assign_from df ''hour'' ''pickup_datetime'' (dt_field (dt_hour L)) = Inr s1"
    unfolding s1_def hour_def
    by (rule assign_from_fresh[OF getitem_Some[OF P(1)]])
       (simp_all add: dtf columns_simps names must_haves_def)
  have e2: "assign_from s1 ''year'' ''pickup_datetime'' (dt_field (dt_year L)) = Inr s2"
    unfolding s2_def year_def
    by (rule assign_from_fresh[OF getitem_append[OF P(1), of "[(''hour'', hour)]", folded s1_def]])
       (simp_all add: dtf cols columns_simps names must_haves_def)
  have e3: "assign_from s2 ''month'' ''pickup_datetime'' (dt_field (dt_month L)) = Inr s3"
    unfolding s3_def month_def
    by (rule assign_from_fresh[of _ _ P])
       (simp_all add: dtf cols columns_simps names must_haves_def
          s2_def s1_def getitem_def P(1))
  have e4: "assign_from s3 ''day'' ''pickup_datetime'' (dt_field (dt_day L)) = Inr s4"
    unfolding s4_def day_def
    by (rule assign_from_fresh[of _ _ P])
       (simp_all add: dtf cols columns_simps names must_haves_def
          s3_def s2_def s1_def getitem_def P(1))
  have g4: "getitem s4 ''dropoff_datetime'' = Inr D" "getitem s4 ''pickup_datetime'' = Inr P"
    by (simp_all add: s4_def s3_def s2_def s1_def getitem_def P(1) D(1))
  have f5: "''diff'' \<notin> set (columns s4)"
    by (simp add: cols columns_simps names must_haves_def)
  have e5: "bnd (getitem s4 ''dropoff_datetime'') (\<lambda>dropoff.
            bnd (astype L Int32 dropoff) (\<lambda>dropoff32.
            bnd (getitem s4 ''pickup_datetime'') (\<lambda>pickup.
            bnd (astype L Int32 pickup) (\<lambda>pickup32.
            bnd (sub_columns dropoff32 pickup32) (\<lambda>d.
            Inr (setitem s4 ''diff'' d)))))) = Inr s5"
    using sub_columns_returns[of "cells D" "cells P"] P(3) D(3)
    by (simp add: g4 bnd_def astype_int32_returns[OF dt(1) okP] astype_int32_returns[OF dt(2) okD]
          setitem_fresh[OF f5] s5_def diff_def)
  have b: "bnd (floordiv_scalar (1 / 100) c) (mul_scalar (1 / 100)) = Inr (bucket c)"
    if "dtype c = Float32" "list_all (cell_ok Float32) (cells c)" for c
    unfolding bucket_def by (rule bucket_returns[OF that])
  have e6: "assign_from s5 ''pickup_latitude_r'' ''pickup_latitude''
              (\<lambda>c. bnd (floordiv_scalar (1 / 100) c) (mul_scalar (1 / 100))) = Inr s6"
    unfolding s6_def
    by (rule assign_from_fresh[of _ _ A1])
       (simp_all add: b A1 cols columns_simps names must_haves_def s5_def s4_def s3_def s2_def s1_def getitem_def)
  have e7: "assign_from s6 ''pickup_longitude_r'' ''pickup_longitude''
              (\<lambda>c. bnd (floordiv_scalar (1 / 100) c) (mul_scalar (1 / 100))) = Inr s7"
    unfolding s7_def
    by (rule assign_from_fresh[of _ _ A2])
       (simp_all add: b A2 cols columns_simps names must_haves_def s6_def s5_def s4_def s3_def s2_def s1_def getitem_def)
  have e8: "assign_from s7 ''dropoff_latitude_r'' ''dropoff_latitude''
              (\<lambda>c. bnd (floordiv_scalar (1 / 100) c) (mul_scalar (1 / 100))) = Inr s8"
    unfolding s8_def
    by (rule assign_from_fresh[of _ _ A3])
       (simp_all add: b A3 cols columns_simps names must_haves_def s7_def s6_def s5_def s4_def s3_def s2_def s1_def getitem_def)
  have e9: "assign_from s8 ''dropoff_longitude_r'' ''dropoff_longitude''
              (\<lambda>c. bnd (floordiv_scalar (1 / 100) c) (mul_scalar (1 / 100))) = Inr s9"
    unfolding s9_def
    by (rule assign_from_fresh[of _ _ A4])
       (simp_all add: b A4 cols columns_simps names must_haves_def s8_def s7_def s6_def s5_def s4_def s3_def s2_def s1_def
          getitem_def)
  have in_df: "''pickup_datetime'' \<in> set (columns df)" "''dropoff_datetime'' \<in> set (columns df)"
    by (simp_all add: names must_haves_def)
  have e10: "drop_column ''pickup_datetime'' s9 = Inr (filter (\<lambda>(n, x). n \<noteq> ''pickup_datetime'') df @ extras)"
    using in_df(1) by (simp add: drop_column_def s9 columns_def extras_def)
  have e11: "drop_column ''dropoff_datetime'' (filter (\<lambda>(n, x). n \<noteq> ''pickup_datetime'') df @ extras) = Inr s11"
    using in_df(2) by (auto simp: drop_column_def columns_def extras_def s11_def kept_def)
  have mk: "map_of kept k = map_of df k" if "k \<noteq> ''pickup_datetime''" "k \<noteq> ''dropoff_datetime''" for k
    using that by (simp add: kept_def map_of_filter_other del: filter_filter)
  have ck: "set (columns kept) = set (columns df) - {''pickup_datetime'', ''dropoff_datetime''}"
    by (auto simp: kept_def columns_def)
  have g11: "get_columns s11 [''pickup_latitude'', ''pickup_longitude'', ''dropoff_latitude'', ''dropoff_longitude'']
               = Inr [A1, A2, A3, A4]"
    by (simp add: s11_def getitem_def mk A1 A2 A3 A4)
  have f12: "''h_distance'' \<notin> set (columns s11)"
    by (simp add: s11_def extras_def columns_simps ck names must_haves_def)
  have e12: "apply_rows (haversine_row L)
               [''pickup_latitude'', ''pickup_longitude'', ''dropoff_latitude'', ''dropoff_longitude'']
               ''h_distance'' Float32 s11 = Inr s12"
    unfolding s12_def hd_def
    by (rule apply_rows_fresh[OF g11 _ f12])
       (use haversine_cells[OF A1(4) A2(4) A3(4) A4(4), of L] in simp)
  have nk: "map_of kept ''day'' = None" "map_of kept ''month'' = None" "map_of kept ''year'' = None"
    using ck names by (auto simp: map_of_eq_None_iff columns_def must_haves_def)
  have g12: "get_columns s12 [''day'', ''month'', ''year''] = Inr [day, month, year]"
    by (simp add: s12_def s11_def getitem_def map_add_def nk extras_def)
  have f13: "''day_of_week'' \<notin> set (columns s12)"
    by (simp add: s12_def s11_def extras_def columns_simps ck names must_haves_def)
  have e13: "apply_rows day_of_week_row [''day'', ''month'', ''year''] ''day_of_week'' Float32 s12 = Inr s13"
    unfolding s13_def dw_def
    by (rule apply_rows_fresh[OF g12 _ f13])
       (use day_of_week_rows[where f = "dt_day L" and g = "dt_month L" and h = "dt_year L" and xs = "cells P"] in
         \<open>simp add: day_def month_def year_def\<close>)
  have okdw: "list_all (cell_ok Float32) (cells dw)"
    by (auto simp: dw_def list_all_iff cell_ok_def split: cell.splits)
  have dtdw: "dtype dw = Float32" by (simp add: dw_def)
  have nk2: "map_of kept ''day_of_week'' = None"
    using ck names by (auto simp: map_of_eq_None_iff columns_def must_haves_def)
  have g13: "getitem s13 ''day_of_week'' = Inr dw"
    by (simp add: s13_def s12_def s11_def getitem_def map_add_def nk2 extras_def)
  have f14: "''is_weekend'' \<notin> set (columns s13)"
    by (simp add: s13_def s12_def s11_def extras_def columns_simps ck names must_haves_def)
  have e14: "assign_from s13 ''is_weekend'' ''day_of_week'' (lt_scalar 2) = Inr s14"
    unfolding s14_def we_def
    by (rule assign_from_fresh[where f = "lt_scalar 2", OF g13 lt_scalar_returns[OF dtdw okdw] f14])
  have "add_features L df = Inr s14"
    unfolding add_features_def
    by (simp only: e1 e2 e3 e4 e5 e6 e7 e8 e9 e10 e11 e12 e13 e14 bnd_Inr)
  then have "add_features L df = Inr (kept @ extras @ [(''h_distance'', hd), (''day_of_week'', dw), (''is_weekend'', we)])"
    by (simp add: s14_def s13_def s12_def s11_def)
  then show ?thesis
    using P(1,3) D(1,3) A1(1) A2(1) A3(1) A4(1)
    by (simp add: kept_def extras_def hour_def year_def month_def day_def diff_def bucket_def hd_def
          we_def dw_def derived_def without_timestamps_def bucket_cells_def day_of_week_cells_def)
qed

subsection \<open>The claims about \<open>add_features\<close>\<close>

lemma columns_filter: "columns (filter (\<lambda>(n, x). p n) df) = filter p (columns df)"
  by (induction df) (auto simp: columns_def)




lemma column_of_append:
  assumes "r = Inr (xs @ ys)" and "map_of xs n = None" and "map_of ys n = Some c"
  shows "column_of r n = Some (cells c)"
  using assms by (simp add: column_of_def map_add_def)

lemma wrap32_mod: "wrap32 x = (x + 2 ^ 31) mod 2 ^ 32 - 2 ^ 31"
  by (simp add: wrap32_def sint_sbintrunc' signed_take_bit_eq_take_bit_shift take_bit_eq_mod)

lemma wrap32_id: "- (2 ^ 31) \<le> x \<Longrightarrow> x < 2 ^ 31 \<Longrightarrow> wrap32 x = x"
  by (simp add: wrap32_def sint_sbintrunc' signed_take_bit_int_eq_self)

lemma sample_filtered_normalized: "normalized sample_filtered"
  by code_simp

lemma long_trip_normalized: "normalized long_trip"
  by code_simp








text \<open>
  Claim C6, as the code has it: both timestamps are cast to int32 before the subtraction,
  which is itself computed in 32 bits. On a frame with the canonical schema the value of
  diff in a row with pick-up time \<open>p\<close> and drop-off time \<open>d\<close>, in milliseconds, is
  \<open>d - p\<close> reduced modulo \<open>2\<^sup>3\<^sup>2\<close> into the signed 32-bit range; it is the difference
  \<open>d - p\<close> itself whenever that lies in the signed 32-bit range, that is for trips
  shorter than \<open>2\<^sup>3\<^sup>1\<close> milliseconds.
\<close>

theorem diff_is_wrapped_difference:
  assumes "normalized df"
      and "map_of df ''pickup_datetime'' = Some P" and "map_of df ''dropoff_datetime'' = Some D"
      and "i < nrows df" and "cells P ! i = T p" and "cells D ! i = T d"
  shows "\<exists>xs. column_of (add_features L df) ''diff'' = Some xs \<and> length xs = nrows df
            \<and> xs ! i = I (wrap32 (d - p))
            \<and> wrap32 (d - p) = (d - p + 2 ^ 31) mod 2 ^ 32 - 2 ^ 31
            \<and> (- (2 ^ 31) \<le> d - p \<and> d - p < 2 ^ 31 \<longrightarrow> xs ! i = I (d - p))"
proof -
  from add_features_result[OF assms(1), of L] assms(2,3) obtain A1 A2 A3 A4 where
    len: "length (cells P) = nrows df" "length (cells D) = nrows df"
    and res: "add_features L df = Inr (without_timestamps df @ derived L P D A1 A2 A3 A4)"
    by auto
  define kept where "kept = without_timestamps df"
  define extras where "extras = derived L P D A1 A2 A3 A4"
  define xs where "xs = map2 (\<lambda>x y. case (x, y) of (T d, T p) \<Rightarrow> I (wrap32 (d - p)) | _ \<Rightarrow> NA) (cells D) (cells P)"
  have ex: "map_of extras ''diff'' = Some \<lparr>dtype = Int32, cells = xs\<rparr>"
    by (simp add: extras_def derived_def xs_def)
  have "''diff'' \<notin> set (columns df)"
    by (simp add: normalized_names[OF assms(1)] must_haves_def)
  then have "''diff'' \<notin> set (columns kept)"
    unfolding kept_def without_timestamps_def by (simp add: columns_filter del: filter_filter)
  then have nk: "map_of kept ''diff'' = None"
    by (simp add: map_of_eq_None_iff columns_def)
  have 1: "column_of (add_features L df) ''diff'' = Some xs"
    using column_of_append[OF res[folded kept_def extras_def] nk ex] by simp
  have 2: "length xs = nrows df"
    by (simp add: xs_def len)
  have 3: "xs ! i = I (wrap32 (d - p))"
    using assms(4-6) len by (simp add: xs_def)
  have 4: "- (2 ^ 31) \<le> d - p \<and> d - p < 2 ^ 31 \<longrightarrow> xs ! i = I (d - p)"
    using 3 by (simp add: wrap32_id)
  show ?thesis
    by (intro exI[of _ xs] conjI) (rule 1 2 3 4 wrap32_mod)+
qed

lemma sample_filtered_times:
  "map_of sample_filtered ''pickup_datetime'' = Some \<lparr>dtype = Datetime64_ms, cells = [T 1402839910000]\<rparr>"
  "map_of sample_filtered ''dropoff_datetime'' = Some \<lparr>dtype = Datetime64_ms, cells = [T 1402840510000]\<rparr>"
  "0 < nrows sample_filtered"
  "cells \<lparr>dtype = Datetime64_ms, cells = [T 1402839910000]\<rparr> ! 0 = T 1402839910000"
  "cells \<lparr>dtype = Datetime64_ms, cells = [T 1402840510000]\<rparr> ! 0 = T 1402840510000"
  by code_simp+

theorem diff_is_wrapped_difference_witness:
  "normalized sample_filtered
   \<and> map_of sample_filtered ''pickup_datetime'' = Some \<lparr>dtype = Datetime64_ms, cells = [T 1402839910000]\<rparr>
   \<and> map_of sample_filtered ''dropoff_datetime'' = Some \<lparr>dtype = Datetime64_ms, cells = [T 1402840510000]\<rparr>
   \<and> 0 < nrows sample_filtered
   \<and> (\<exists>xs. column_of (add_features reference_lib sample_filtered) ''diff'' = Some xs
          \<and> length xs = nrows sample_filtered
          \<and> xs ! 0 = I (wrap32 (1402840510000 - 1402839910000))
          \<and> wrap32 (1402840510000 - 1402839910000)
              = (1402840510000 - 1402839910000 + 2 ^ 31) mod 2 ^ 32 - 2 ^ 31
          \<and> (- (2 ^ 31) \<le> (1402840510000 :: int) - 1402839910000
               \<and> (1402840510000 :: int) - 1402839910000 < 2 ^ 31
             \<longrightarrow> xs ! 0 = I (1402840510000 - 1402839910000)))"
  by (intro conjI sample_filtered_normalized sample_filtered_times(1-3)
        diff_is_wrapped_difference[OF sample_filtered_normalized sample_filtered_times, of reference_lib])

lemma long_trip_times:
  "map_of long_trip ''pickup_datetime'' = Some \<lparr>dtype = Datetime64_ms, cells = [T 0]\<rparr>"
  "map_of long_trip ''dropoff_datetime'' = Some \<lparr>dtype = Datetime64_ms, cells = [T 2147483648]\<rparr>"
  by code_simp+

lemma long_trip_diff:
  "column_of (add_features reference_lib long_trip) ''diff'' = Some [I (- 2147483648)]"
proof -
  from add_features_result[OF long_trip_normalized, of reference_lib] long_trip_times obtain A1 A2 A3 A4 where
    res: "add_features reference_lib long_trip =
            Inr (without_timestamps long_trip
                 @ derived reference_lib \<lparr>dtype = Datetime64_ms, cells = [T 0]\<rparr>
                     \<lparr>dtype = Datetime64_ms, cells = [T 2147483648]\<rparr> A1 A2 A3 A4)"
    by auto
  have nk: "map_of (without_timestamps long_trip) ''diff'' = None"
    by code_simp
  have w: "wrap32 2147483648 = - 2147483648"
    by (simp add: wrap32_def)
  have ex: "map_of (derived reference_lib \<lparr>dtype = Datetime64_ms, cells = [T 0]\<rparr>
                     \<lparr>dtype = Datetime64_ms, cells = [T 2147483648]\<rparr> A1 A2 A3 A4) ''diff''
              = Some \<lparr>dtype = Int32, cells = [I (- 2147483648)]\<rparr>"
    by (simp add: derived_def w)
  show ?thesis
    using column_of_append[OF res nk ex] by simp
qed

text \<open>
  The claim as stated fails on \<open>long_trip\<close>: the drop-off is \<open>2147483648\<close> milliseconds
  after the pick-up, and diff is \<open>-2147483648\<close>.
\<close>

theorem diff_counterexample:
  "map_option cells (map_of long_trip ''pickup_datetime'') = Some [T 0]
   \<and> map_option cells (map_of long_trip ''dropoff_datetime'') = Some [T 2147483648]
   \<and> column_of (add_features reference_lib long_trip) ''diff'' = Some [I (- 2147483648)]
   \<and> (2147483648 :: int) - 0 \<noteq> - 2147483648"
  using long_trip_diff by (simp add: long_trip_times)


end
